theory Spec2Isabelle
  imports Main "HOL-Library.Word"
begin

section \<open>Python values, exceptions and the host platform\<close>

text \<open>
  The program \<^verbatim>\<open>soundbar_tone_player.py\<close> keeps its settings as whatever
  \<^verbatim>\<open>json.load\<close> returned, so the values of the model are the values JSON can
  produce. A dict is an association list in insertion order (the order \<^verbatim>\<open>json.dump\<close>
  writes). A Python float is carried as its 64-bit pattern; the arithmetic on floats is
  the host's (see \<open>host\<close> below).
\<close>

datatype exn =
    RuntimeError | TypeError | ValueError | AttributeError | OverflowError
  | JSONDecodeError | OSError | OtherException

datatype pyval =
    PNone
  | PBool bool
  | PInt int
  | PFloat "64 word"
  | PStr string
  | PList "pyval list"
  | PDict "(string \<times> pyval) list"

text \<open>
  Everything the program calls but does not define: \<^verbatim>\<open>sys\<close>, \<^verbatim>\<open>pathlib\<close>,
  \<^verbatim>\<open>json.load\<close>, \<^verbatim>\<open>int()\<close> on strings and floats, float multiplication and
  printing, and the audio stack (\<^verbatim>\<open>sf.read\<close>, \<^verbatim>\<open>sd.play\<close>, \<^verbatim>\<open>sd.wait\<close>), whose
  result on a file is \<open>None\<close> when the tone was played and \<open>Some e\<close> when one of the
  three calls raised \<open>e\<close>. Paths are strings.
\<close>

record host =
  frozen :: bool
  sys_executable :: string
  path_parent :: "string \<Rightarrow> string"
  path_join :: "string \<Rightarrow> string \<Rightarrow> string"
  path_name :: "string \<Rightarrow> string"
  path_resolve :: "string \<Rightarrow> string"
  json_loads :: "string \<Rightarrow> exn + pyval"
  int_of_str :: "string \<Rightarrow> exn + int"
  int_of_float :: "64 word \<Rightarrow> exn + int"
  float_mul_int :: "64 word \<Rightarrow> int \<Rightarrow> 64 word"
  float_repr :: "64 word \<Rightarrow> string"
  audio_stack :: "string \<Rightarrow> exn option"

subsection \<open>Dict access\<close>

text \<open>\<^verbatim>\<open>d[k] = v\<close>: an existing key keeps its position, a new key goes last.\<close>

fun dict_set :: "(string \<times> pyval) list \<Rightarrow> string \<Rightarrow> pyval \<Rightarrow> (string \<times> pyval) list" where
  "dict_set [] k v = [(k, v)]"
| "dict_set ((k', v') # kvs) k v =
     (if k' = k then (k, v) # kvs else (k', v') # dict_set kvs k v)"

text \<open>\<^verbatim>\<open>obj.get(k, default)\<close>: only a dict has the method.\<close>

fun py_get :: "pyval \<Rightarrow> string \<Rightarrow> pyval \<Rightarrow> exn + pyval" where
  "py_get (PDict kvs) k d = (case map_of kvs k of None \<Rightarrow> Inr d | Some v \<Rightarrow> Inr v)"
| "py_get _ k d = Inl AttributeError"

text \<open>\<^verbatim>\<open>obj[k] = v\<close> with a string key: a list wants an integer index, the rest
  support no item assignment.\<close>

fun py_setitem :: "pyval \<Rightarrow> string \<Rightarrow> pyval \<Rightarrow> exn + pyval" where
  "py_setitem (PDict kvs) k v = Inr (PDict (dict_set kvs k v))"
| "py_setitem _ k v = Inl TypeError"

subsection \<open>Arithmetic of the timer loop\<close>

text \<open>\<^verbatim>\<open>x * 60\<close>: numbers multiply, sequences repeat, \<^verbatim>\<open>None\<close> and dicts raise.\<close>

fun py_mul60 :: "host \<Rightarrow> pyval \<Rightarrow> exn + pyval" where
  "py_mul60 h (PInt n) = Inr (PInt (n * 60))"
| "py_mul60 h (PBool b) = Inr (PInt (if b then 60 else 0))"
| "py_mul60 h (PFloat f) = Inr (PFloat (float_mul_int h f 60))"
| "py_mul60 h (PStr s) = Inr (PStr (concat (replicate 60 s)))"
| "py_mul60 h (PList xs) = Inr (PList (concat (replicate 60 xs)))"
| "py_mul60 h PNone = Inl TypeError"
| "py_mul60 h (PDict kvs) = Inl TypeError"

text \<open>\<^verbatim>\<open>int(x)\<close>.\<close>

fun py_int :: "host \<Rightarrow> pyval \<Rightarrow> exn + int" where
  "py_int h (PInt n) = Inr n"
| "py_int h (PBool b) = Inr (if b then 1 else 0)"
| "py_int h (PFloat f) = int_of_float h f"
| "py_int h (PStr s) = int_of_str h s"
| "py_int h PNone = Inl TypeError"
| "py_int h (PList xs) = Inl TypeError"
| "py_int h (PDict kvs) = Inl TypeError"

subsection \<open>\<^verbatim>\<open>json.dump(obj, f, indent=4)\<close>\<close>

fun digit_char :: "nat \<Rightarrow> char" where
  "digit_char n = char_of (48 + n)"

fun dec_of_nat :: "nat \<Rightarrow> string" where
  "dec_of_nat n = (if n < 10 then [digit_char n] else dec_of_nat (n div 10) @ [digit_char (n mod 10)])"

definition dec_of_int :: "int \<Rightarrow> string" where
  "dec_of_int i = (if i < 0 then CHR ''-'' # dec_of_nat (nat (- i)) else dec_of_nat (nat i))"

definition hex_char :: "nat \<Rightarrow> char" where
  "hex_char n = (if n < 10 then char_of (48 + n) else char_of (87 + n))"

text \<open>The escapes of \<^verbatim>\<open>ensure_ascii=True\<close>: the short escapes, then every
  character outside space..tilde as \<^verbatim>\<open>\uXXXX\<close>. A string here is a list of 8-bit
  characters, so the strings of the model are the Python strings with code points up to
  U+00FF, and the escape always starts \<^verbatim>\<open>\u00\<close>.\<close>

definition json_escape_char :: "char \<Rightarrow> string" where
  "json_escape_char c =
     (let n = (of_char c :: nat) in
      if n = 34 then [CHR 0x5C, CHR 0x22]
      else if n = 92 then [CHR 0x5C, CHR 0x5C]
      else if n = 10 then [CHR 0x5C, CHR ''n'']
      else if n = 13 then [CHR 0x5C, CHR ''r'']
      else if n = 9 then [CHR 0x5C, CHR ''t'']
      else if n = 8 then [CHR 0x5C, CHR ''b'']
      else if n = 12 then [CHR 0x5C, CHR ''f'']
      else if 32 \<le> n \<and> n \<le> 126 then [c]
      else [CHR 0x5C, CHR ''u'', CHR ''0'', CHR ''0'', hex_char (n div 16), hex_char (n mod 16)])"

definition json_str :: "string \<Rightarrow> string" where
  "json_str s = CHR 0x22 # concat (map json_escape_char s) @ [CHR 0x22]"

definition nl_indent :: "nat \<Rightarrow> string" where
  "nl_indent lvl = CHR 0x0A # replicate (4 * lvl) CHR '' ''"

fun intercalate :: "string \<Rightarrow> string list \<Rightarrow> string" where
  "intercalate sep [] = []"
| "intercalate sep [x] = x"
| "intercalate sep (x # y # ys) = x @ sep @ intercalate sep (y # ys)"

fun json_dumps :: "host \<Rightarrow> nat \<Rightarrow> pyval \<Rightarrow> string" where
  "json_dumps h lvl PNone = ''null''"
| "json_dumps h lvl (PBool b) = (if b then ''true'' else ''false'')"
| "json_dumps h lvl (PInt n) = dec_of_int n"
| "json_dumps h lvl (PFloat f) = float_repr h f"
| "json_dumps h lvl (PStr s) = json_str s"
| "json_dumps h lvl (PList xs) =
     (if xs = [] then ''[]''
      else ''['' @ nl_indent (Suc lvl)
           @ intercalate ('','' @ nl_indent (Suc lvl)) (map (json_dumps h (Suc lvl)) xs)
           @ nl_indent lvl @ '']'')"
| "json_dumps h lvl (PDict kvs) =
     (if kvs = [] then ''{}''
      else ''{'' @ nl_indent (Suc lvl)
           @ intercalate ('','' @ nl_indent (Suc lvl))
               (map (\<lambda>(k, v). json_str k @ '': '' @ json_dumps h (Suc lvl) v) kvs)
           @ nl_indent lvl @ ''}'')"

section \<open>The player, its threads and the world around it\<close>

text \<open>
  A message is kept as the pieces of its f-string: literal text, a symbol given by its
  Unicode code point, an interpolated value, \<^verbatim>\<open>str(e)\<close> of an exception and the
  clock reading of \<^verbatim>\<open>time.strftime\<close>.
\<close>

datatype frag = Lit string | Sym nat | Val pyval | ExcStr exn | TimeStr

text \<open>
  What \<^verbatim>\<open>create_menu\<close> reads to build the tray menu: whether the first item carries
  the check mark, and the interval that the three presets are compared with.
\<close>

record menu =
  startup_checked :: bool
  current_interval :: pyval

text \<open>
  What the program does to the outside: a call \<^verbatim>\<open>self.log(message, end)\<close>, a call
  \<^verbatim>\<open>icon.notify(a, b)\<close> that returned, with its two arguments in call order, and
  \<^verbatim>\<open>time.sleep(1)\<close> of the timer thread with the given index. \<open>Log\<close> records the
  call: whether its \<^verbatim>\<open>print\<close> put the text on a console is not recorded.
\<close>

datatype event =
    Log "frag list" string
  | Notify string "frag list"
  | Slept nat

text \<open>
  Where a thread running \<^verbatim>\<open>timer_loop\<close> stands: at the \<^verbatim>\<open>while\<close> test, inside
  the \<^verbatim>\<open>for\<close> loop with the iterations of \<^verbatim>\<open>range\<close> still to come, returned, or
  ended by an uncaught exception.
\<close>

datatype tstate = AtLoopHead | InWait nat | Finished | Crashed exn

text \<open>What the process may do with the registry key \<^verbatim>\<open>...\CurrentVersion\Run\<close>.\<close>

datatype access = NoAccess | ReadAccess | FullAccess

text \<open>
  The fields of \<^verbatim>\<open>TonePlayer\<close> (\<open>icon\<close> is \<open>None\<close> or the icon with its current
  menu; \<open>timer_thread\<close> is \<open>None\<close> or the index of a thread), then the world: the threads
  started so far, the files with their text, the values under the Run key, and the
  events so far. A file exists when it has a text; opening, reading and writing a file
  succeed, so the only error of loading the settings is that of \<^verbatim>\<open>json.load\<close>.
\<close>

record state =
  settings_file :: string
  settings :: pyval
  running :: bool
  timer_thread :: "nat option"
  icon :: "menu option"
  threads :: "tstate list"
  fs :: "string \<Rightarrow> string option"
  run_key_access :: access
  run_key :: "string \<Rightarrow> string option"
  trace :: "event list"

definition newline :: string where
  "newline = [CHR 0x0A]"

text \<open>\<^verbatim>\<open>log\<close>: the \<^verbatim>\<open>print\<close> is wrapped in \<^verbatim>\<open>try/except: pass\<close>, so it never raises.\<close>

definition log :: "frag list \<Rightarrow> string \<Rightarrow> state \<Rightarrow> state" where
  "log message end s = s\<lparr>trace := trace s @ [Log message end]\<rparr>"

text \<open>
  The recurring \<^verbatim>\<open>if self.icon: self.icon.notify(a, b)\<close>, for a tray whose
  \<^verbatim>\<open>notify\<close> returns; \<open>notify_with\<close> below is the same for a tray whose \<^verbatim>\<open>notify\<close>
  may raise.
\<close>

definition notify_if_icon :: "string \<Rightarrow> frag list \<Rightarrow> state \<Rightarrow> state" where
  "notify_if_icon a b s =
     (case icon s of None \<Rightarrow> s | Some m \<Rightarrow> s\<lparr>trace := trace s @ [Notify a b]\<rparr>)"

text \<open>\<^verbatim>\<open>__file__\<close> is assigned in the first line of the module.\<close>

definition module_file :: string where
  "module_file = ''soundbar_tone_player.py''"

definition get_base_path :: "host \<Rightarrow> string" where
  "get_base_path h =
     (if frozen h then path_parent h (sys_executable h) else path_parent h module_file)"

subsection \<open>Settings\<close>

definition default_settings :: pyval where
  "default_settings = PDict [(''tone_file'', PStr ''tone.wav''), (''interval_minutes'', PInt 10)]"

definition settings_path :: "host \<Rightarrow> state \<Rightarrow> string" where
  "settings_path h s = path_join h (get_base_path h) (settings_file s)"

definition load_settings :: "host \<Rightarrow> state \<Rightarrow> (exn + pyval) \<times> state" where
  "load_settings h s =
     (case fs s (settings_path h s) of
        None \<Rightarrow>
          (let s1 = s\<lparr>fs := (fs s)(settings_path h s \<mapsto> json_dumps h 0 default_settings)\<rparr>;
               s2 = log [Lit ''Created default settings file: '', Lit (settings_path h s)] newline s1
           in (Inr default_settings, s2))
      | Some text \<Rightarrow> (json_loads h text, s))"

definition save_settings :: "host \<Rightarrow> state \<Rightarrow> state" where
  "save_settings h s = s\<lparr>fs := (fs s)(settings_path h s \<mapsto> json_dumps h 0 (settings s))\<rparr>"

text \<open>\<^verbatim>\<open>__init__\<close>, on a world given as a state whose player fields are not read.\<close>

definition init :: "host \<Rightarrow> string \<Rightarrow> state \<Rightarrow> exn + state" where
  "init h file w =
     (case load_settings h (w\<lparr>settings_file := file\<rparr>) of
        (Inl e, s1) \<Rightarrow> Inl e
      | (Inr st, s1) \<Rightarrow>
          Inr (s1\<lparr>settings := st, running := False, timer_thread := None, icon := None\<rparr>))"

subsection \<open>Playing the tone\<close>

text \<open>\<^verbatim>\<open>Path / x\<close> takes a string; JSON gives no other path-like value.\<close>

definition get_audio_path :: "host \<Rightarrow> state \<Rightarrow> exn + string" where
  "get_audio_path h s =
     (case py_get (settings s) ''tone_file'' (PStr ''tone.wav'') of
        Inl e \<Rightarrow> Inl e
      | Inr (PStr tone_file) \<Rightarrow> Inr (path_join h (get_base_path h) tone_file)
      | Inr _ \<Rightarrow> Inl TypeError)"

text \<open>
  The handler of the outer \<^verbatim>\<open>except Exception as e\<close>. The inner handler takes a
  \<^verbatim>\<open>RuntimeError\<close> and its subclasses, which are all \<open>RuntimeError\<close> here; every
  other exception of the audio stack goes to the outer one, as does a failure to form
  the path. \<open>play_audio\<close> is the function for a tray whose \<^verbatim>\<open>notify\<close> returns, and
  then it returns a truth value in every case; \<open>play_audio_with\<close> below is the function
  for any tray, and can raise.
\<close>

definition play_audio_failed :: "exn \<Rightarrow> state \<Rightarrow> bool \<times> state" where
  "play_audio_failed e s =
     (False, notify_if_icon ''Error'' [ExcStr e]
               (log [Lit newline, Sym 0x274C, Lit '' Error playing audio: '', ExcStr e] newline s))"

definition play_audio :: "host \<Rightarrow> state \<Rightarrow> bool \<times> state" where
  "play_audio h s =
     (case get_audio_path h s of
        Inl e \<Rightarrow> play_audio_failed e s
      | Inr audio_path \<Rightarrow>
          if fs s audio_path = None then
            (False, notify_if_icon ''Error''
                      [Lit ''Audio file not found: '', Lit (path_name h audio_path)]
                      (log [Sym 0x274C, Lit '' Audio file not found: '', Lit audio_path] newline s))
          else
            (let s1 = log [Sym 0x1F50A, Lit '' Playing: '', Lit (path_name h audio_path), Lit '' ... '']
                          [] s
             in case audio_stack h audio_path of
                  None \<Rightarrow> (True, log [Sym 0x2713, Lit '' Played at '', TimeStr] newline s1)
                | Some e \<Rightarrow>
                    if e = RuntimeError then
                      (False, notify_if_icon ''Playback Error'' [Lit ''Could not play audio file'']
                                (log [Lit newline, Sym 0x274C, Lit '' Error: '', ExcStr e] newline s1))
                    else play_audio_failed e s1))"

subsection \<open>The timer thread\<close>

definition set_thread :: "nat \<Rightarrow> tstate \<Rightarrow> state \<Rightarrow> state" where
  "set_thread t ts s = s\<lparr>threads := (threads s)[t := ts]\<rparr>"

text \<open>
  One pass from the \<^verbatim>\<open>while self.running\<close> test to the \<^verbatim>\<open>for\<close> loop: the interval
  is read and multiplied before the tone is played, \<^verbatim>\<open>int()\<close> is applied after it.
  The pass is one step: between the \<^verbatim>\<open>while\<close> test and the first test of the
  \<^verbatim>\<open>for\<close> loop the thread does not read the flag. Nothing in \<^verbatim>\<open>timer_loop\<close> catches
  an exception, so one raised outside \<^verbatim>\<open>play_audio\<close> ends the thread.
\<close>

definition loop_head :: "host \<Rightarrow> nat \<Rightarrow> state \<Rightarrow> state" where
  "loop_head h t s =
     (if \<not> running s then set_thread t Finished s
      else case py_get (settings s) ''interval_minutes'' (PInt 10) of
             Inl e \<Rightarrow> set_thread t (Crashed e) s
           | Inr interval_minutes \<Rightarrow>
              (case py_mul60 h interval_minutes of
                 Inl e \<Rightarrow> set_thread t (Crashed e) s
               | Inr interval_seconds \<Rightarrow>
                  (let s1 = snd (play_audio h s)
                   in case py_int h interval_seconds of
                        Inl e \<Rightarrow> set_thread t (Crashed e) s1
                      | Inr n \<Rightarrow> set_thread t (InWait (nat n)) s1)))"

text \<open>
  One step of thread \<open>t\<close> of \<^verbatim>\<open>timer_loop\<close>. In the \<^verbatim>\<open>for\<close> loop an iteration tests
  the flag, then sleeps one second; when \<^verbatim>\<open>range\<close> is used up, or at \<^verbatim>\<open>break\<close>,
  control is back at the \<^verbatim>\<open>while\<close> test.
\<close>

definition thread_step :: "host \<Rightarrow> nat \<Rightarrow> state \<Rightarrow> state" where
  "thread_step h t s =
     (if t < length (threads s) then
        (case threads s ! t of
           AtLoopHead \<Rightarrow> loop_head h t s
         | InWait 0 \<Rightarrow> set_thread t AtLoopHead s
         | InWait (Suc k) \<Rightarrow>
             if \<not> running s then set_thread t AtLoopHead s
             else set_thread t (InWait k) (s\<lparr>trace := trace s @ [Slept t]\<rparr>)
         | Finished \<Rightarrow> s
         | Crashed e \<Rightarrow> s)
      else s)"

text \<open>The threads take the steps of a schedule, one entry one step.\<close>

fun run_threads :: "host \<Rightarrow> nat list \<Rightarrow> state \<Rightarrow> state" where
  "run_threads h [] s = s"
| "run_threads h (t # sched) s = run_threads h sched (thread_step h t s)"

text \<open>A thread is live until \<^verbatim>\<open>timer_loop\<close> has returned or raised.\<close>

fun is_live :: "tstate \<Rightarrow> bool" where
  "is_live AtLoopHead = True"
| "is_live (InWait k) = True"
| "is_live Finished = False"
| "is_live (Crashed e) = False"

definition thread_alive :: "state \<Rightarrow> nat \<Rightarrow> bool" where
  "thread_alive s t = (t < length (threads s) \<and> is_live (threads s ! t))"

definition live_threads :: "state \<Rightarrow> nat" where
  "live_threads s = length (filter is_live (threads s))"

text \<open>
  \<^verbatim>\<open>thread.join(timeout=2)\<close>: the caller waits while the threads take the steps of the
  schedule, and returns at once when thread \<open>t\<close> has ended; a schedule used up with the
  thread still alive is the timeout.
\<close>

fun join :: "host \<Rightarrow> nat \<Rightarrow> nat list \<Rightarrow> state \<Rightarrow> state" where
  "join h t [] s = s"
| "join h t (i # sched) s =
     (if thread_alive s t then join h t sched (thread_step h i s) else s)"

subsection \<open>A tray icon whose \<^verbatim>\<open>notify\<close> may raise\<close>

text \<open>
  \<open>tray a b\<close> is what the call \<^verbatim>\<open>icon.notify(a, b)\<close> does: \<open>None\<close> when it returns,
  \<open>Some e\<close> when it raises \<open>e\<close>, and then nothing is shown.
\<close>

type_synonym tray = "string \<Rightarrow> frag list \<Rightarrow> exn option"

definition notify_with :: "tray \<Rightarrow> string \<Rightarrow> frag list \<Rightarrow> state \<Rightarrow> exn option \<times> state" where
  "notify_with tr a b s =
     (case icon s of
        None \<Rightarrow> (None, s)
      | Some m \<Rightarrow>
         (case tr a b of
            None \<Rightarrow> (None, s\<lparr>trace := trace s @ [Notify a b]\<rparr>)
          | Some e \<Rightarrow> (Some e, s)))"

text \<open>
  The handler of the outer \<^verbatim>\<open>except Exception as e\<close> (lines 105 to 109). Its
  \<^verbatim>\<open>notify\<close> is under no \<^verbatim>\<open>try\<close>: an exception of it leaves \<^verbatim>\<open>play_audio\<close>.
\<close>

definition play_audio_failed_with :: "tray \<Rightarrow> exn \<Rightarrow> state \<Rightarrow> (exn + bool) \<times> state" where
  "play_audio_failed_with tr e s =
     (case notify_with tr ''Error'' [ExcStr e]
             (log [Lit newline, Sym 0x274C, Lit '' Error playing audio: '', ExcStr e] newline s) of
        (None, s1) \<Rightarrow> (Inr False, s1)
      | (Some e', s1) \<Rightarrow> (Inl e', s1))"

text \<open>
  \<^verbatim>\<open>play_audio\<close> (lines 75 to 109). The \<^verbatim>\<open>notify\<close> of the not-found branch (line 83)
  and that of the inner handler (line 102) stand inside the outer \<^verbatim>\<open>try\<close>, so an
  exception of either goes to the outer handler.
\<close>

definition play_audio_with :: "tray \<Rightarrow> host \<Rightarrow> state \<Rightarrow> (exn + bool) \<times> state" where
  "play_audio_with tr h s =
     (case get_audio_path h s of
        Inl e \<Rightarrow> play_audio_failed_with tr e s
      | Inr audio_path \<Rightarrow>
          if fs s audio_path = None then
            (case notify_with tr ''Error''
                    [Lit ''Audio file not found: '', Lit (path_name h audio_path)]
                    (log [Sym 0x274C, Lit '' Audio file not found: '', Lit audio_path] newline s) of
               (None, s1) \<Rightarrow> (Inr False, s1)
             | (Some e, s1) \<Rightarrow> play_audio_failed_with tr e s1)
          else
            (let s1 = log [Sym 0x1F50A, Lit '' Playing: '', Lit (path_name h audio_path), Lit '' ... '']
                          [] s
             in case audio_stack h audio_path of
                  None \<Rightarrow> (Inr True, log [Sym 0x2713, Lit '' Played at '', TimeStr] newline s1)
                | Some e \<Rightarrow>
                    if e = RuntimeError then
                      (case notify_with tr ''Playback Error'' [Lit ''Could not play audio file'']
                              (log [Lit newline, Sym 0x274C, Lit '' Error: '', ExcStr e] newline s1) of
                         (None, s2) \<Rightarrow> (Inr False, s2)
                       | (Some e', s2) \<Rightarrow> play_audio_failed_with tr e' s2)
                    else play_audio_failed_with tr e s1))"

text \<open>
  The pass of \<^verbatim>\<open>timer_loop\<close> from the \<^verbatim>\<open>while\<close> test to the \<^verbatim>\<open>for\<close> loop, and the
  step of a thread, for any tray: \<^verbatim>\<open>self.play_audio()\<close> at line 117 is under no
  \<^verbatim>\<open>try\<close>, so an exception of it ends the thread.
\<close>

definition loop_head_with :: "tray \<Rightarrow> host \<Rightarrow> nat \<Rightarrow> state \<Rightarrow> state" where
  "loop_head_with tr h t s =
     (if \<not> running s then set_thread t Finished s
      else case py_get (settings s) ''interval_minutes'' (PInt 10) of
             Inl e \<Rightarrow> set_thread t (Crashed e) s
           | Inr interval_minutes \<Rightarrow>
              (case py_mul60 h interval_minutes of
                 Inl e \<Rightarrow> set_thread t (Crashed e) s
               | Inr interval_seconds \<Rightarrow>
                  (case play_audio_with tr h s of
                     (Inl e, s1) \<Rightarrow> set_thread t (Crashed e) s1
                   | (Inr played, s1) \<Rightarrow>
                      (case py_int h interval_seconds of
                         Inl e \<Rightarrow> set_thread t (Crashed e) s1
                       | Inr n \<Rightarrow> set_thread t (InWait (nat n)) s1))))"

definition thread_step_with :: "tray \<Rightarrow> host \<Rightarrow> nat \<Rightarrow> state \<Rightarrow> state" where
  "thread_step_with tr h t s =
     (if t < length (threads s) then
        (case threads s ! t of
           AtLoopHead \<Rightarrow> loop_head_with tr h t s
         | InWait 0 \<Rightarrow> set_thread t AtLoopHead s
         | InWait (Suc k) \<Rightarrow>
             if \<not> running s then set_thread t AtLoopHead s
             else set_thread t (InWait k) (s\<lparr>trace := trace s @ [Slept t]\<rparr>)
         | Finished \<Rightarrow> s
         | Crashed e \<Rightarrow> s)
      else s)"

fun run_threads_with :: "tray \<Rightarrow> host \<Rightarrow> nat list \<Rightarrow> state \<Rightarrow> state" where
  "run_threads_with tr h [] s = s"
| "run_threads_with tr h (t # sched) s = run_threads_with tr h sched (thread_step_with tr h t s)"

subsection \<open>The autostart entry\<close>

definition entry_name :: string where
  "entry_name = ''SoundbarTonePlayer''"

text \<open>
  \<^verbatim>\<open>is_startup_enabled\<close>: the key is opened with \<^verbatim>\<open>KEY_READ\<close>; whatever goes wrong
  gives \<open>False\<close>.
\<close>

definition is_startup_enabled :: "state \<Rightarrow> bool" where
  "is_startup_enabled s =
     (case run_key_access s of
        NoAccess \<Rightarrow> False
      | _ \<Rightarrow> (case run_key s entry_name of None \<Rightarrow> False | Some v \<Rightarrow> True))"

definition create_menu :: "state \<Rightarrow> exn + menu" where
  "create_menu s =
     (let startup = is_startup_enabled s
      in case py_get (settings s) ''interval_minutes'' (PInt 10) of
           Inl e \<Rightarrow> Inl e
         | Inr v \<Rightarrow> Inr \<lparr>startup_checked = startup, current_interval = v\<rparr>)"

text \<open>\<^verbatim>\<open>s.replace("python.exe", "pythonw.exe")\<close>: every occurrence, left to right; the
  counter is the number of characters of a replaced occurrence still to skip.\<close>

fun replace_from :: "nat \<Rightarrow> string \<Rightarrow> string" where
  "replace_from k [] = []"
| "replace_from (Suc k) (c # cs) = replace_from k cs"
| "replace_from 0 (c # cs) =
     (if take 10 (c # cs) = ''python.exe'' then ''pythonw.exe'' @ replace_from 9 cs
      else c # replace_from 0 cs)"

definition startup_command :: "host \<Rightarrow> state \<Rightarrow> string" where
  "startup_command h s =
     (let script_path = path_resolve h module_file;
          python_no_console = replace_from 0 (sys_executable h);
          python_exe = (if fs s python_no_console \<noteq> None then python_no_console
                        else sys_executable h)
      in [CHR 0x22] @ python_exe @ [CHR 0x22] @ '' '' @ [CHR 0x22] @ script_path @ [CHR 0x22])"

text \<open>The handler of the outer \<^verbatim>\<open>except Exception as e\<close> of \<^verbatim>\<open>toggle_startup\<close>.\<close>

definition toggle_failed :: "exn \<Rightarrow> state \<Rightarrow> state" where
  "toggle_failed e s =
     notify_if_icon ''Error'' [Lit ''Could not modify startup settings'']
       (log [Lit ''Error toggling startup: '', ExcStr e] newline s)"

text \<open>
  \<^verbatim>\<open>toggle_startup\<close>: the key is opened with \<^verbatim>\<open>KEY_ALL_ACCESS\<close>, which needs full
  access. With the key open, deleting and setting a value succeed; the entry is present
  when it is deleted, since \<^verbatim>\<open>is_startup_enabled\<close> has just found it.
\<close>

definition toggle_startup :: "host \<Rightarrow> state \<Rightarrow> state" where
  "toggle_startup h s =
     (case run_key_access s of
        FullAccess \<Rightarrow>
          (let s1 =
             (if is_startup_enabled s then
                notify_if_icon ''Startup Disabled'' [Lit ''App will not start with Windows'']
                  (log [Lit ''Removed from Windows startup''] newline
                     (s\<lparr>run_key := (run_key s)(entry_name := None)\<rparr>))
              else
                notify_if_icon ''Startup Enabled'' [Lit ''App will start with Windows'']
                  (log [Lit ''Added to Windows startup''] newline
                     (s\<lparr>run_key := (run_key s)(entry_name \<mapsto> startup_command h s)\<rparr>)))
           in case icon s1 of
                None \<Rightarrow> s1
              | Some m \<Rightarrow>
                 (case create_menu s1 of
                    Inl e \<Rightarrow> toggle_failed e s1
                  | Inr m' \<Rightarrow> s1\<lparr>icon := Some m'\<rparr>))
      | _ \<Rightarrow> toggle_failed OSError s)"

subsection \<open>Starting, stopping, changing the interval\<close>

text \<open>
  An operation that may raise returns the exception, if any, with the state as the
  operation left it.
\<close>

definition start_timer :: "state \<Rightarrow> exn option \<times> state" where
  "start_timer s =
     (if \<not> running s then
        (let s1 = s\<lparr>running := True,
                     timer_thread := Some (length (threads s)),
                     threads := threads s @ [AtLoopHead]\<rparr>;
             s2 = log [Sym 0x2705, Lit '' Started tone player timer''] newline s1
         in case icon s2 of
              None \<Rightarrow> (None, s2)
            | Some m \<Rightarrow>
               (case py_get (settings s2) ''interval_minutes'' (PInt 10) of
                  Inl e \<Rightarrow> (Some e, s2)
                | Inr interval \<Rightarrow>
                    (None, s2\<lparr>trace := trace s2 @
                       [Notify ''Tone Player Started''
                          [Lit ''Playing every '', Val interval, Lit '' minute(s)'']]\<rparr>)))
      else (None, s))"

text \<open>\<open>sched\<close> is what the threads do while \<^verbatim>\<open>join(timeout=2)\<close> waits.\<close>

definition stop_timer :: "host \<Rightarrow> nat list \<Rightarrow> state \<Rightarrow> state" where
  "stop_timer h sched s =
     (if running s then
        (let s1 = s\<lparr>running := False\<rparr>;
             s2 = (case timer_thread s1 of None \<Rightarrow> s1 | Some t \<Rightarrow> join h t sched s1)
         in log [Sym 0x1F6D1, Lit '' Stopped tone player timer''] newline s2)
      else s)"

text \<open>
  \<^verbatim>\<open>set_interval\<close>: \<open>sched_join\<close> is what the threads do during the join of
  \<^verbatim>\<open>stop_timer\<close>, \<open>sched_sleep\<close> what they do during \<^verbatim>\<open>time.sleep(0.5)\<close>.
\<close>

definition set_interval ::
    "host \<Rightarrow> pyval \<Rightarrow> nat list \<Rightarrow> nat list \<Rightarrow> state \<Rightarrow> exn option \<times> state" where
  "set_interval h minutes sched_join sched_sleep s =
     (case py_setitem (settings s) ''interval_minutes'' minutes of
        Inl e \<Rightarrow> (Some e, s)
      | Inr st \<Rightarrow>
         (let s1 = save_settings h (s\<lparr>settings := st\<rparr>);
              was_running = running s1;
              (r, s2) =
                (if was_running then
                   start_timer (run_threads h sched_sleep (stop_timer h sched_join s1))
                 else
                   (case icon s1 of
                      None \<Rightarrow> (None, s1)
                    | Some m \<Rightarrow>
                       (case create_menu s1 of
                          Inl e \<Rightarrow> (Some e, s1)
                        | Inr m' \<Rightarrow> (None, s1\<lparr>icon := Some m'\<rparr>))))
          in case r of
               Some e \<Rightarrow> (Some e, s2)
             | None \<Rightarrow>
                 (None, notify_if_icon ''Interval Updated''
                          [Lit ''Now playing every '', Val minutes, Lit '' minute(s)''] s2)))"

text \<open>\<^verbatim>\<open>run_systray\<close> up to the blocking \<^verbatim>\<open>icon.run()\<close>.\<close>

definition run_systray :: "state \<Rightarrow> exn option \<times> state" where
  "run_systray s =
     (case create_menu s of
        Inl e \<Rightarrow> (Some e, s)
      | Inr m \<Rightarrow> start_timer (s\<lparr>icon := Some m\<rparr>))"

text \<open>
  What lines 114, 115 and 120 of \<^verbatim>\<open>timer_loop\<close> compute from the settings: the number
  of iterations of the \<^verbatim>\<open>for\<close> loop, \<^verbatim>\<open>range(int(interval_minutes * 60))\<close>, or the
  exception one of the three operations raises.
\<close>

definition interval_iterations :: "host \<Rightarrow> state \<Rightarrow> exn + nat" where
  "interval_iterations h s =
     (case py_get (settings s) ''interval_minutes'' (PInt 10) of
        Inl e \<Rightarrow> Inl e
      | Inr interval_minutes \<Rightarrow>
         (case py_mul60 h interval_minutes of
            Inl e \<Rightarrow> Inl e
          | Inr interval_seconds \<Rightarrow>
             (case py_int h interval_seconds of
                Inl e \<Rightarrow> Inl e
              | Inr n \<Rightarrow> Inr (nat n))))"

subsection \<open>Sequences of commands\<close>

text \<open>
  What can happen to a player: the calls of \<^verbatim>\<open>start_timer\<close>, \<^verbatim>\<open>stop_timer\<close>,
  \<^verbatim>\<open>set_interval\<close>, \<^verbatim>\<open>run_systray\<close> and \<^verbatim>\<open>toggle_startup\<close> on the main thread,
  and in between a step of a timer thread. A call that raises leaves the state it had
  reached.
\<close>

datatype command =
    Start
  | Stop "nat list"
  | SetInterval pyval "nat list" "nat list"
  | RunSystray
  | ToggleStartup
  | Step nat

fun do_command :: "host \<Rightarrow> command \<Rightarrow> state \<Rightarrow> state" where
  "do_command h Start s = snd (start_timer s)"
| "do_command h (Stop sched) s = stop_timer h sched s"
| "do_command h (SetInterval minutes sched_join sched_sleep) s =
     snd (set_interval h minutes sched_join sched_sleep s)"
| "do_command h RunSystray s = snd (run_systray s)"
| "do_command h ToggleStartup s = toggle_startup h s"
| "do_command h (Step t) s = thread_step h t s"

fun do_commands :: "host \<Rightarrow> command list \<Rightarrow> state \<Rightarrow> state" where
  "do_commands h [] s = s"
| "do_commands h (c # cs) s = do_commands h cs (do_command h c s)"

section \<open>Concrete hosts and states\<close>

text \<open>
  A host for running the model on examples. Its \<^verbatim>\<open>json.load\<close> knows one text, a
  record without \<^verbatim>\<open>interval_minutes\<close>; its audio stack fails on two file names, with a
  \<^verbatim>\<open>RuntimeError\<close> and with another exception.
\<close>

definition demo_json_loads :: "string \<Rightarrow> exn + pyval" where
  \<open>demo_json_loads text =
     (if text = ''{"tone_file": "x.wav"}'' then Inr (PDict [(''tone_file'', PStr ''x.wav'')])
      else Inl JSONDecodeError)\<close>

definition demo_audio_stack :: "string \<Rightarrow> exn option" where
  "demo_audio_stack p =
     (if p = ''./bad.wav'' then Some RuntimeError
      else if p = ''./odd.wav'' then Some ValueError
      else None)"

definition demo_host :: host where
  "demo_host =
     \<lparr>frozen = False, sys_executable = ''C:/Python/python.exe'',
      path_parent = (\<lambda>p. ''.''), path_join = (\<lambda>a b. a @ ''/'' @ b),
      path_name = (\<lambda>p. drop 2 p), path_resolve = (\<lambda>p. ''C:/app/'' @ p),
      json_loads = demo_json_loads, int_of_str = (\<lambda>t. Inl ValueError),
      int_of_float = (\<lambda>f. Inl ValueError), float_mul_int = (\<lambda>f n. f),
      float_repr = (\<lambda>f. ''nan''), audio_stack = demo_audio_stack\<rparr>"

text \<open>A world with no files, no threads and an empty, fully accessible Run key.\<close>

definition empty_world :: state where
  "empty_world =
     \<lparr>settings_file = ''player_settings.json'', settings = PNone, running = False,
      timer_thread = None, icon = None, threads = [], fs = Map.empty,
      run_key_access = FullAccess, run_key = Map.empty, trace = []\<rparr>"

text \<open>The same world with a settings file that has no \<^verbatim>\<open>interval_minutes\<close>.\<close>

definition partial_world :: state where
  \<open>partial_world =
     empty_world\<lparr>fs := [''./player_settings.json'' \<mapsto> ''{"tone_file": "x.wav"}'']\<rparr>\<close>

text \<open>A player after \<^verbatim>\<open>__init__\<close> on the default settings, with the tone file missing.\<close>

definition fresh_player :: state where
  "fresh_player = empty_world\<lparr>settings := default_settings\<rparr>"

text \<open>A player whose settings record is empty.\<close>

definition bare_player :: state where
  "bare_player = empty_world\<lparr>settings := PDict []\<rparr>"

text \<open>The fresh player once \<^verbatim>\<open>run_systray\<close> has attached the tray icon.\<close>

definition tray_player :: state where
  "tray_player =
     fresh_player\<lparr>icon := Some \<lparr>startup_checked = False, current_interval = PInt 10\<rparr>\<rparr>"

text \<open>The empty-record player with the loop running, and with the tray icon attached.\<close>

definition bare_running :: state where
  "bare_running = bare_player\<lparr>running := True, timer_thread := Some 0, threads := [AtLoopHead]\<rparr>"

definition bare_tray :: state where
  "bare_tray =
     bare_player\<lparr>icon := Some \<lparr>startup_checked = False, current_interval = PInt 10\<rparr>\<rparr>"

text \<open>The player that \<^verbatim>\<open>__init__\<close> builds in the empty world.\<close>

definition initial_player :: state where
  "initial_player =
     (snd (load_settings demo_host empty_world))
       \<lparr>settings := default_settings, running := False, timer_thread := None, icon := None\<rparr>"

text \<open>
  The fresh player with its loop running: the thread at the head of the loop, three
  iterations into the end of a wait, and the same with the flag cleared.
\<close>

definition running_player :: state where
  "running_player = fresh_player\<lparr>running := True, timer_thread := Some 0, threads := [AtLoopHead]\<rparr>"

definition waiting_player :: state where
  "waiting_player = fresh_player\<lparr>running := True, timer_thread := Some 0, threads := [InWait 3]\<rparr>"

definition halted_player :: state where
  "halted_player = waiting_player\<lparr>running := False\<rparr>"

text \<open>A running player whose tone file exists and makes the audio stack raise.\<close>

definition bad_tone_player :: state where
  "bad_tone_player =
     running_player\<lparr>settings := PDict [(''tone_file'', PStr ''bad.wav''), (''interval_minutes'', PInt 3)],
                    fs := [''./bad.wav'' \<mapsto> ''RIFF'']\<rparr>"

text \<open>
  A thread at the head of the loop with the flag cleared, and a running player whose
  settings give \<^verbatim>\<open>null\<close> for the interval.
\<close>

definition stopping_player :: state where
  "stopping_player = running_player\<lparr>running := False\<rparr>"

definition null_interval_player :: state where
  "null_interval_player = running_player\<lparr>settings := PDict [(''interval_minutes'', PNone)]\<rparr>"

text \<open>A running player whose settings file was edited to give a word for the interval.\<close>

definition word_interval_player :: state where
  "word_interval_player =
     running_player\<lparr>settings := PDict [(''tone_file'', PStr ''tone.wav''),
                                          (''interval_minutes'', PStr ''ten'')]\<rparr>"

text \<open>A tray whose \<^verbatim>\<open>notify\<close> returns, and one whose \<^verbatim>\<open>notify\<close> raises.\<close>

definition quiet_tray :: tray where
  "quiet_tray a b = None"

definition broken_tray :: tray where
  "broken_tray a b = Some OSError"

text \<open>A tray that cannot show the not-found message and shows everything else.\<close>

definition picky_tray :: tray where
  "picky_tray a b =
     (if b = [Lit ''Audio file not found: '', Lit ''tone.wav''] then Some OSError else None)"

text \<open>The running player with the tray icon attached; its tone file is missing.\<close>

definition tray_running_player :: state where
  "tray_running_player =
     running_player\<lparr>icon := Some \<lparr>startup_checked = False, current_interval = PInt 10\<rparr>\<rparr>"


section \<open>Properties\<close>

subsection \<open>Auxiliary facts\<close>

lemma json_escape_plain:
  "32 \<le> (of_char c :: nat) \<Longrightarrow> of_char c \<le> (126::nat) \<Longrightarrow> of_char c \<noteq> (34::nat)
     \<Longrightarrow> of_char c \<noteq> (92::nat) \<Longrightarrow> json_escape_char c = [c]"
  by (simp add: json_escape_char_def Let_def)

lemma json_str_tone_file: "json_str ''tone_file'' = CHR 0x22 # ''tone_file'' @ [CHR 0x22]"
  by (simp add: json_str_def json_escape_plain)

lemma json_str_tone_wav: "json_str ''tone.wav'' = CHR 0x22 # ''tone.wav'' @ [CHR 0x22]"
  by (simp add: json_str_def json_escape_plain)

lemma json_str_interval_minutes:
  "json_str ''interval_minutes'' = CHR 0x22 # ''interval_minutes'' @ [CHR 0x22]"
  by (simp add: json_str_def json_escape_plain)

lemma dec_of_int_10: "dec_of_int 10 = ''10''"
  by code_simp

lemma nl_indent_0: "nl_indent 0 = [CHR 0x0A]"
  by (simp add: nl_indent_def)

lemma nl_indent_1: "nl_indent (Suc 0) = CHR 0x0A # ''    ''"
  by (simp add: nl_indent_def eval_nat_numeral)

lemma json_dumps_default_settings:
  \<open>json_dumps h 0 default_settings =
     ''{'' @ [CHR 0x0A] @
     ''    "tone_file": "tone.wav",'' @ [CHR 0x0A] @
     ''    "interval_minutes": 10'' @ [CHR 0x0A] @
     ''}''\<close>
  by (simp add: default_settings_def json_str_tone_file json_str_tone_wav
      json_str_interval_minutes dec_of_int_10 nl_indent_0 nl_indent_1)

lemma demo_settings_path [simp]:
  "settings_path demo_host (s\<lparr>fs := f\<rparr>) = ''./'' @ settings_file s"
  "settings_path demo_host s = ''./'' @ settings_file s"
  by (simp_all add: settings_path_def demo_host_def get_base_path_def)

subsection \<open>Loading the settings\<close>

text \<open>
  C3. If there is no settings file at the resolved path, \<^verbatim>\<open>load_settings\<close> creates it
  with exactly the text of the default record as \<^verbatim>\<open>json.dump(..., indent=4)\<close> prints
  it, touches no other file, and returns the default record
  \<^verbatim>\<open>{"tone_file": "tone.wav", "interval_minutes": 10}\<close>.
\<close>

theorem load_settings_missing_file:
  assumes "fs s (settings_path h s) = None"
  shows \<open>fst (load_settings h s)
           = Inr (PDict [(''tone_file'', PStr ''tone.wav''), (''interval_minutes'', PInt 10)])
       \<and> fs (snd (load_settings h s)) (settings_path h s)
           = Some (''{'' @ [CHR 0x0A] @
                   ''    "tone_file": "tone.wav",'' @ [CHR 0x0A] @
                   ''    "interval_minutes": 10'' @ [CHR 0x0A] @
                   ''}'')
       \<and> (\<forall>p. p \<noteq> settings_path h s \<longrightarrow> fs (snd (load_settings h s)) p = fs s p)\<close>
proof -
  have "fst (load_settings h s) = Inr default_settings"
    using assms by (simp add: load_settings_def Let_def)
  moreover have "fs (snd (load_settings h s)) (settings_path h s)
                   = Some (json_dumps h 0 default_settings)"
    using assms by (simp add: load_settings_def Let_def log_def)
  moreover have "\<forall>p. p \<noteq> settings_path h s \<longrightarrow> fs (snd (load_settings h s)) p = fs s p"
    using assms by (simp add: load_settings_def Let_def log_def)
  ultimately show ?thesis
    by (simp only: json_dumps_default_settings) (simp add: default_settings_def)
qed

theorem load_settings_missing_file_witness:
  \<open>fs empty_world (settings_path demo_host empty_world) = None
   \<and> fst (load_settings demo_host empty_world) = Inr default_settings
   \<and> fs (snd (load_settings demo_host empty_world)) ''./player_settings.json''
       = Some (''{'' @ [CHR 0x0A] @
               ''    "tone_file": "tone.wav",'' @ [CHR 0x0A] @
               ''    "interval_minutes": 10'' @ [CHR 0x0A] @
               ''}'')
   \<and> fs (snd (load_settings demo_host empty_world)) ''./tone.wav'' = None\<close>
proof -
  have h: "fs empty_world (settings_path demo_host empty_world) = None"
    by (simp add: empty_world_def)
  have p: "settings_path demo_host empty_world = ''./player_settings.json''"
    by (simp add: empty_world_def)
  have q: "fs empty_world ''./tone.wav'' = None"
    by (simp add: empty_world_def)
  from load_settings_missing_file [OF h] show ?thesis
    using h q unfolding p by (simp add: default_settings_def)
qed

text \<open>
  C2, as the code has it. When the settings file exists, \<^verbatim>\<open>load_settings\<close> returns
  what \<^verbatim>\<open>json.load\<close> gives for its text, a record with absent fields included (or
  the parse error), and changes nothing: no default is filled in and no file is written.
\<close>

theorem load_settings_existing_file:
  assumes "fs s (settings_path h s) = Some text"
  shows "fst (load_settings h s) = json_loads h text \<and> snd (load_settings h s) = s"
  using assms by (simp add: load_settings_def)

theorem load_settings_existing_file_witness:
  \<open>fs partial_world (settings_path demo_host partial_world) = Some ''{"tone_file": "x.wav"}''
   \<and> fst (load_settings demo_host partial_world) = Inr (PDict [(''tone_file'', PStr ''x.wav'')])
   \<and> snd (load_settings demo_host partial_world) = partial_world\<close>
proof -
  have h: \<open>fs partial_world (settings_path demo_host partial_world)
             = Some ''{"tone_file": "x.wav"}''\<close>
    by (simp add: partial_world_def empty_world_def)
  from load_settings_existing_file [OF h] show ?thesis
    using h by (simp add: demo_host_def demo_json_loads_def)
qed

text \<open>
  C2 as the spec states it fails: the settings file below has no \<^verbatim>\<open>interval_minutes\<close>;
  the record \<^verbatim>\<open>load_settings\<close> returns has no such field either, it is not the merged
  record, and the file still holds the text it held.
\<close>

theorem load_settings_no_merge_counterexample:
  \<open>fst (load_settings demo_host partial_world) = Inr (PDict [(''tone_file'', PStr ''x.wav'')])
   \<and> fst (load_settings demo_host partial_world)
       \<noteq> Inr (PDict [(''tone_file'', PStr ''x.wav''), (''interval_minutes'', PInt 10)])
   \<and> fs (snd (load_settings demo_host partial_world)) ''./player_settings.json''
       = Some ''{"tone_file": "x.wav"}''\<close>
  by (simp add: load_settings_def partial_world_def empty_world_def demo_host_def
      demo_json_loads_def settings_path_def get_base_path_def)

subsection \<open>Playing the tone\<close>

lemma play_audio_failed_frame:
  "snd (play_audio_failed e s) = s\<lparr>trace := trace (snd (play_audio_failed e s))\<rparr>"
  by (simp add: play_audio_failed_def notify_if_icon_def log_def split: option.splits)

lemma play_audio_frame: "snd (play_audio h s) = s\<lparr>trace := trace (snd (play_audio h s))\<rparr>"
  by (simp add: play_audio_def play_audio_failed_def notify_if_icon_def log_def Let_def
      split: sum.splits option.splits)

lemma play_audio_fields [simp]:
  "settings (snd (play_audio h s)) = settings s"
  "running (snd (play_audio h s)) = running s"
  "timer_thread (snd (play_audio h s)) = timer_thread s"
  "icon (snd (play_audio h s)) = icon s"
  "threads (snd (play_audio h s)) = threads s"
  "fs (snd (play_audio h s)) = fs s"
  "run_key (snd (play_audio h s)) = run_key s"
  "run_key_access (snd (play_audio h s)) = run_key_access s"
  "settings_file (snd (play_audio h s)) = settings_file s"
  by (subst play_audio_frame, simp)+

subsection \<open>Defaults at read time\<close>

lemma loop_head_default_interval:
  assumes "settings s = PDict kvs" and "map_of kvs ''interval_minutes'' = None"
    and "running s"
  shows "loop_head h t s = set_thread t (InWait 600) (snd (play_audio h s))"
  using assms by (simp add: loop_head_def)

text \<open>
  C10. For a settings record without \<^verbatim>\<open>tone_file\<close>, the audio path is resolved
  with \<^verbatim>\<open>tone.wav\<close>. For a record without \<^verbatim>\<open>interval_minutes\<close>, a cycle of the timer
  loop takes the interval to be 10, plays and enters a wait of 600 seconds rather than
  ending with an exception; \<^verbatim>\<open>start_timer\<close> returns normally, and its notification
  carries the value 10; the menu is built for the interval 10.
\<close>

theorem defaults_substituted_at_read_time:
  assumes "settings s = PDict kvs"
  shows "(map_of kvs ''tone_file'' = None \<longrightarrow>
            get_audio_path h s = Inr (path_join h (get_base_path h) ''tone.wav''))
       \<and> (map_of kvs ''interval_minutes'' = None \<longrightarrow>
            (running s \<and> t < length (threads s) \<and> threads s ! t = AtLoopHead \<longrightarrow>
               thread_step h t s = set_thread t (InWait 600) (snd (play_audio h s)))
          \<and> (\<not> running s \<and> icon s \<noteq> None \<longrightarrow>
               fst (start_timer s) = None
             \<and> trace (snd (start_timer s)) =
                 trace s @
                 [Log [Sym 0x2705, Lit '' Started tone player timer''] newline,
                  Notify ''Tone Player Started''
                    [Lit ''Playing every '', Val (PInt 10), Lit '' minute(s)'']])
          \<and> create_menu s =
              Inr \<lparr>startup_checked = is_startup_enabled s, current_interval = PInt 10\<rparr>)"
proof -
  have "get_audio_path h s = Inr (path_join h (get_base_path h) ''tone.wav'')"
    if "map_of kvs ''tone_file'' = None"
    using assms that by (simp add: get_audio_path_def)
  moreover have "thread_step h t s = set_thread t (InWait 600) (snd (play_audio h s))"
    if "map_of kvs ''interval_minutes'' = None" "running s" "t < length (threads s)"
      "threads s ! t = AtLoopHead"
    using that loop_head_default_interval [OF assms that(1) that(2)]
    by (simp add: thread_step_def)
  moreover have "fst (start_timer s) = None
      \<and> trace (snd (start_timer s)) =
          trace s @
          [Log [Sym 0x2705, Lit '' Started tone player timer''] newline,
           Notify ''Tone Player Started''
             [Lit ''Playing every '', Val (PInt 10), Lit '' minute(s)'']]"
    if "map_of kvs ''interval_minutes'' = None" "\<not> running s" "icon s \<noteq> None"
    using assms that by (auto simp add: start_timer_def log_def Let_def)
  moreover have "create_menu s =
      Inr \<lparr>startup_checked = is_startup_enabled s, current_interval = PInt 10\<rparr>"
    if "map_of kvs ''interval_minutes'' = None"
    using assms that by (simp add: create_menu_def)
  ultimately show ?thesis by blast
qed

theorem defaults_substituted_at_read_time_witness:
  "settings bare_running = PDict [] \<and> settings bare_tray = PDict []
   \<and> get_audio_path demo_host bare_running = Inr ''./tone.wav''
   \<and> thread_step demo_host 0 bare_running
       = set_thread 0 (InWait 600) (snd (play_audio demo_host bare_running))
   \<and> fst (start_timer bare_tray) = None
   \<and> trace (snd (start_timer bare_tray)) =
       [Log [Sym 0x2705, Lit '' Started tone player timer''] newline,
        Notify ''Tone Player Started''
          [Lit ''Playing every '', Val (PInt 10), Lit '' minute(s)'']]"
proof -
  have a: "settings bare_running = PDict []"
    by (simp add: bare_running_def bare_player_def empty_world_def)
  have b: "settings bare_tray = PDict []"
    by (simp add: bare_tray_def bare_player_def empty_world_def)
  have c: "running bare_running \<and> 0 < length (threads bare_running)
           \<and> threads bare_running ! 0 = AtLoopHead"
    by (simp add: bare_running_def bare_player_def empty_world_def)
  have d: "\<not> running bare_tray \<and> icon bare_tray \<noteq> None \<and> trace bare_tray = []"
    by (simp add: bare_tray_def bare_player_def empty_world_def)
  have e: "path_join demo_host (get_base_path demo_host) ''tone.wav'' = ''./tone.wav''"
    by (simp add: demo_host_def get_base_path_def)
  from defaults_substituted_at_read_time [OF a, of demo_host 0]
    defaults_substituted_at_read_time [OF b, of demo_host 0]
  show ?thesis using a b c d e by simp
qed

subsection \<open>What the timer threads leave alone\<close>

lemma set_thread_fields [simp]:
  "settings (set_thread t ts s) = settings s"
  "running (set_thread t ts s) = running s"
  "timer_thread (set_thread t ts s) = timer_thread s"
  "icon (set_thread t ts s) = icon s"
  "fs (set_thread t ts s) = fs s"
  "run_key (set_thread t ts s) = run_key s"
  "run_key_access (set_thread t ts s) = run_key_access s"
  "settings_file (set_thread t ts s) = settings_file s"
  "trace (set_thread t ts s) = trace s"
  "threads (set_thread t ts s) = (threads s)[t := ts]"
  by (simp_all add: set_thread_def)

lemma loop_head_fields [simp]:
  "settings (loop_head h t s) = settings s"
  "running (loop_head h t s) = running s"
  "timer_thread (loop_head h t s) = timer_thread s"
  "icon (loop_head h t s) = icon s"
  "fs (loop_head h t s) = fs s"
  "run_key (loop_head h t s) = run_key s"
  "run_key_access (loop_head h t s) = run_key_access s"
  "settings_file (loop_head h t s) = settings_file s"
  "length (threads (loop_head h t s)) = length (threads s)"
  by (simp_all add: loop_head_def Let_def split: sum.splits)

lemma thread_step_fields [simp]:
  "settings (thread_step h t s) = settings s"
  "running (thread_step h t s) = running s"
  "timer_thread (thread_step h t s) = timer_thread s"
  "icon (thread_step h t s) = icon s"
  "fs (thread_step h t s) = fs s"
  "run_key (thread_step h t s) = run_key s"
  "run_key_access (thread_step h t s) = run_key_access s"
  "settings_file (thread_step h t s) = settings_file s"
  "length (threads (thread_step h t s)) = length (threads s)"
  by (simp_all add: thread_step_def split: tstate.splits nat.splits)

lemma run_threads_fields [simp]:
  "settings (run_threads h sched s) = settings s"
  "running (run_threads h sched s) = running s"
  "timer_thread (run_threads h sched s) = timer_thread s"
  "icon (run_threads h sched s) = icon s"
  "fs (run_threads h sched s) = fs s"
  "run_key (run_threads h sched s) = run_key s"
  "run_key_access (run_threads h sched s) = run_key_access s"
  "settings_file (run_threads h sched s) = settings_file s"
  "length (threads (run_threads h sched s)) = length (threads s)"
  by (induction sched arbitrary: s; simp)+

lemma join_fields [simp]:
  "settings (join h t sched s) = settings s"
  "running (join h t sched s) = running s"
  "timer_thread (join h t sched s) = timer_thread s"
  "icon (join h t sched s) = icon s"
  "fs (join h t sched s) = fs s"
  "run_key (join h t sched s) = run_key s"
  "run_key_access (join h t sched s) = run_key_access s"
  "settings_file (join h t sched s) = settings_file s"
  "length (threads (join h t sched s)) = length (threads s)"
  by (induction sched arbitrary: s; simp)+

lemma log_fields [simp]:
  "settings (log m e s) = settings s"
  "running (log m e s) = running s"
  "timer_thread (log m e s) = timer_thread s"
  "icon (log m e s) = icon s"
  "fs (log m e s) = fs s"
  "run_key (log m e s) = run_key s"
  "run_key_access (log m e s) = run_key_access s"
  "settings_file (log m e s) = settings_file s"
  "threads (log m e s) = threads s"
  "trace (log m e s) = trace s @ [Log m e]"
  by (simp_all add: log_def)

lemma notify_if_icon_fields [simp]:
  "settings (notify_if_icon a b s) = settings s"
  "running (notify_if_icon a b s) = running s"
  "timer_thread (notify_if_icon a b s) = timer_thread s"
  "icon (notify_if_icon a b s) = icon s"
  "fs (notify_if_icon a b s) = fs s"
  "run_key (notify_if_icon a b s) = run_key s"
  "run_key_access (notify_if_icon a b s) = run_key_access s"
  "settings_file (notify_if_icon a b s) = settings_file s"
  "threads (notify_if_icon a b s) = threads s"
  by (simp_all add: notify_if_icon_def split: option.splits)

lemma stop_timer_fields [simp]:
  "settings (stop_timer h sched s) = settings s"
  "running (stop_timer h sched s) = False"
  "timer_thread (stop_timer h sched s) = timer_thread s"
  "icon (stop_timer h sched s) = icon s"
  "fs (stop_timer h sched s) = fs s"
  "run_key (stop_timer h sched s) = run_key s"
  "run_key_access (stop_timer h sched s) = run_key_access s"
  "settings_file (stop_timer h sched s) = settings_file s"
  "length (threads (stop_timer h sched s)) = length (threads s)"
  by (simp_all add: stop_timer_def Let_def split: option.splits)

lemma stop_timer_running [simp]: "\<not> running (stop_timer h sched s)"
  by (simp add: stop_timer_def Let_def split: option.splits)

subsection \<open>Starting and stopping\<close>

lemma start_timer_when_running: "running s \<Longrightarrow> start_timer s = (None, s)"
  by (simp add: start_timer_def)

lemma start_timer_when_stopped:
  assumes "\<not> running s"
  shows "running (snd (start_timer s))"
    and "timer_thread (snd (start_timer s)) = Some (length (threads s))"
    and "threads (snd (start_timer s)) = threads s @ [AtLoopHead]"
    and "settings (snd (start_timer s)) = settings s"
    and "fs (snd (start_timer s)) = fs s"
    and "icon (snd (start_timer s)) = icon s"
    and "settings_file (snd (start_timer s)) = settings_file s"
  using assms by (simp_all add: start_timer_def Let_def split: option.splits sum.splits)

lemma start_timer_twice: "start_timer (snd (start_timer s)) = (None, snd (start_timer s))"
proof (cases "running s")
  case True
  then show ?thesis by (simp add: start_timer_when_running)
next
  case False
  then show ?thesis
    by (simp add: start_timer_when_running start_timer_when_stopped)
qed

text \<open>
  C5. A second \<^verbatim>\<open>start_timer\<close> right after the first returns normally and changes
  nothing; from a stopped player the two calls together start one thread, at the head
  of its loop, and it is the one \<open>timer_thread\<close> names, so the live threads are one more
  than before. \<^verbatim>\<open>stop_timer\<close> on a stopped player changes nothing.
\<close>

theorem start_twice_stop_stopped:
  "start_timer (snd (start_timer s)) = (None, snd (start_timer s))
   \<and> (running s \<longrightarrow> snd (start_timer s) = s)
   \<and> (\<not> running s \<longrightarrow>
        running (snd (start_timer (snd (start_timer s))))
      \<and> threads (snd (start_timer (snd (start_timer s)))) = threads s @ [AtLoopHead]
      \<and> timer_thread (snd (start_timer (snd (start_timer s)))) = Some (length (threads s))
      \<and> live_threads (snd (start_timer (snd (start_timer s)))) = Suc (live_threads s)
      \<and> stop_timer h sched s = s)"
proof -
  have "live_threads (snd (start_timer s)) = Suc (live_threads s)" if "\<not> running s"
    using that by (simp add: live_threads_def start_timer_when_stopped)
  moreover have "stop_timer h sched s = s" if "\<not> running s"
    using that by (simp add: stop_timer_def)
  ultimately show ?thesis
    by (simp add: start_timer_twice start_timer_when_running start_timer_when_stopped)
qed

lemma init_demo: "init demo_host ''player_settings.json'' empty_world = Inr initial_player"
  by (simp add: init_def initial_player_def load_settings_def empty_world_def Let_def
      settings_path_def demo_host_def get_base_path_def log_def default_settings_def)

lemma initial_player_fields [simp]:
  "running initial_player = False"
  "timer_thread initial_player = None"
  "threads initial_player = []"
  "icon initial_player = None"
  "settings initial_player = default_settings"
  by (simp_all add: initial_player_def load_settings_def empty_world_def Let_def log_def)

theorem start_twice_stop_stopped_witness:
  "\<not> running initial_player
   \<and> threads (snd (start_timer (snd (start_timer initial_player)))) = [AtLoopHead]
   \<and> timer_thread (snd (start_timer (snd (start_timer initial_player)))) = Some 0
   \<and> live_threads (snd (start_timer (snd (start_timer initial_player)))) = 1
   \<and> stop_timer demo_host [0] initial_player = initial_player"
proof -
  have r: "\<not> running initial_player" by simp
  from start_twice_stop_stopped [of initial_player demo_host "[0]"] r
  have "threads (snd (start_timer (snd (start_timer initial_player))))
          = threads initial_player @ [AtLoopHead]
      \<and> timer_thread (snd (start_timer (snd (start_timer initial_player))))
          = Some (length (threads initial_player))
      \<and> live_threads (snd (start_timer (snd (start_timer initial_player))))
          = Suc (live_threads initial_player)
      \<and> stop_timer demo_host [0] initial_player = initial_player"
    by blast
  then show ?thesis using r by (simp add: live_threads_def)
qed

subsection \<open>The thread handle and the running flag\<close>

lemma save_settings_fields [simp]:
  "settings (save_settings h s) = settings s"
  "running (save_settings h s) = running s"
  "timer_thread (save_settings h s) = timer_thread s"
  "icon (save_settings h s) = icon s"
  "threads (save_settings h s) = threads s"
  "trace (save_settings h s) = trace s"
  "run_key (save_settings h s) = run_key s"
  "run_key_access (save_settings h s) = run_key_access s"
  "settings_file (save_settings h s) = settings_file s"
  by (simp_all add: save_settings_def)

lemma toggle_startup_fields [simp]:
  "settings (toggle_startup h s) = settings s"
  "running (toggle_startup h s) = running s"
  "timer_thread (toggle_startup h s) = timer_thread s"
  "threads (toggle_startup h s) = threads s"
  "fs (toggle_startup h s) = fs s"
  "run_key_access (toggle_startup h s) = run_key_access s"
  by (simp_all add: toggle_startup_def toggle_failed_def Let_def
      split: access.splits option.splits sum.splits)

lemma start_timer_handle:
  assumes "running s \<longrightarrow> (\<exists>t. timer_thread s = Some t \<and> t < length (threads s))"
  shows "\<exists>t. timer_thread (snd (start_timer s)) = Some t
             \<and> t < length (threads (snd (start_timer s)))"
proof (cases "running s")
  case True
  with assms show ?thesis by (simp add: start_timer_when_running)
next
  case False
  then show ?thesis by (simp add: start_timer_when_stopped)
qed

lemma set_interval_handle:
  assumes "running s \<longrightarrow> (\<exists>t. timer_thread s = Some t \<and> t < length (threads s))"
    and "running (snd (set_interval h v sj ss s))"
  shows "\<exists>t. timer_thread (snd (set_interval h v sj ss s)) = Some t
             \<and> t < length (threads (snd (set_interval h v sj ss s)))"
proof (cases "py_setitem (settings s) ''interval_minutes'' v")
  case (Inl e)
  with assms show ?thesis by (simp add: set_interval_def)
next
  case (Inr st)
  show ?thesis
  proof (cases "running s")
    case True
    define x where "x = run_threads h ss (stop_timer h sj (save_settings h (s\<lparr>settings := st\<rparr>)))"
    have stopped: "\<not> running x" by (simp add: x_def)
    obtain r s2 where started: "start_timer x = (r, s2)" by (cases "start_timer x")
    then have s2: "s2 = snd (start_timer x)" by simp
    have handle: "\<exists>t. timer_thread s2 = Some t \<and> t < length (threads s2)"
      unfolding s2 using stopped by (simp add: start_timer_when_stopped)
    have "snd (set_interval h v sj ss s) =
            (case r of
               Some e \<Rightarrow> s2
             | None \<Rightarrow> notify_if_icon ''Interval Updated''
                         [Lit ''Now playing every '', Val v, Lit '' minute(s)''] s2)"
      using Inr True started by (simp add: set_interval_def Let_def x_def split: option.splits)
    then show ?thesis using handle by (cases r) simp_all
  next
    case False
    have "\<not> running (snd (set_interval h v sj ss s))"
      using False Inr
      by (auto simp add: set_interval_def Let_def split: prod.splits option.splits sum.splits)
    with assms(2) show ?thesis by simp
  qed
qed

lemma do_command_handle:
  assumes "running s \<longrightarrow> (\<exists>t. timer_thread s = Some t \<and> t < length (threads s))"
  shows "running (do_command h c s) \<longrightarrow>
           (\<exists>t. timer_thread (do_command h c s) = Some t
                 \<and> t < length (threads (do_command h c s)))"
proof (cases c)
  case Start
  with start_timer_handle [OF assms] show ?thesis by simp
next
  case (Stop sched)
  then show ?thesis by simp
next
  case (SetInterval v sj ss)
  with set_interval_handle [OF assms] show ?thesis by simp
next
  case RunSystray
  show ?thesis
  proof (cases "create_menu s")
    case (Inl e)
    with assms RunSystray show ?thesis by (simp add: run_systray_def)
  next
    case (Inr m)
    have "running (s\<lparr>icon := Some m\<rparr>) \<longrightarrow>
            (\<exists>t. timer_thread (s\<lparr>icon := Some m\<rparr>) = Some t
                  \<and> t < length (threads (s\<lparr>icon := Some m\<rparr>)))"
      using assms by simp
    from start_timer_handle [OF this] show ?thesis
      using Inr RunSystray by (simp add: run_systray_def)
  qed
next
  case ToggleStartup
  with assms show ?thesis by simp
next
  case (Step t)
  with assms show ?thesis by simp
qed

lemma do_commands_handle:
  assumes "running s \<longrightarrow> (\<exists>t. timer_thread s = Some t \<and> t < length (threads s))"
  shows "running (do_commands h cs s) \<longrightarrow>
           (\<exists>t. timer_thread (do_commands h cs s) = Some t
                 \<and> t < length (threads (do_commands h cs s)))"
  using assms
proof (induction cs arbitrary: s)
  case Nil
  then show ?case by simp
next
  case (Cons c cs)
  from Cons.IH [OF do_command_handle [OF Cons.prems]] show ?case by simp
qed

lemma init_stopped:
  assumes "init h file w = Inr s0"
  shows "\<not> running s0" and "timer_thread s0 = None"
  using assms by (auto simp add: init_def split: prod.splits sum.splits)

text \<open>
  C6, as the code has it. In every state reached from the state \<^verbatim>\<open>__init__\<close> builds,
  by any sequence of commands and thread steps, a set running flag comes with a thread
  handle, and the handle names a thread that was started. The converse is not claimed.
\<close>

theorem running_has_timer_thread:
  assumes "init h file w = Inr s0"
  shows "running (do_commands h cs s0) \<longrightarrow>
           timer_thread (do_commands h cs s0) \<noteq> None
         \<and> the (timer_thread (do_commands h cs s0)) < length (threads (do_commands h cs s0))"
proof -
  have "running s0 \<longrightarrow> (\<exists>t. timer_thread s0 = Some t \<and> t < length (threads s0))"
    using init_stopped [OF assms] by simp
  from do_commands_handle [OF this, of h cs] show ?thesis by auto
qed

theorem running_has_timer_thread_witness:
  "init demo_host ''player_settings.json'' empty_world = Inr initial_player
   \<and> running (do_commands demo_host [Start] initial_player)
   \<and> timer_thread (do_commands demo_host [Start] initial_player) = Some 0
   \<and> threads (do_commands demo_host [Start] initial_player) = [AtLoopHead]"
proof -
  have r: "\<not> running initial_player" by simp
  from running_has_timer_thread [OF init_demo, of "[Start]"] show ?thesis
    using init_demo r by (simp add: start_timer_when_stopped)
qed

text \<open>
  C6 as the spec states it fails: after \<^verbatim>\<open>start_timer\<close> and \<^verbatim>\<open>stop_timer\<close> (during
  whose join the thread takes one step and returns) the flag is cleared and the thread
  has ended, but \<open>timer_thread\<close> still holds its handle.
\<close>

theorem handle_kept_after_stop_counterexample:
  "init demo_host ''player_settings.json'' empty_world = Inr initial_player
   \<and> \<not> running (do_commands demo_host [Start, Stop [0]] initial_player)
   \<and> timer_thread (do_commands demo_host [Start, Stop [0]] initial_player) = Some 0
   \<and> threads (do_commands demo_host [Start, Stop [0]] initial_player) = [Finished]"
proof -
  have r: "\<not> running initial_player" by simp
  have "threads (do_commands demo_host [Start, Stop [0]] initial_player) = [Finished]"
    using r
    by (simp add: start_timer_when_stopped stop_timer_def Let_def thread_alive_def
        thread_step_def loop_head_def)
  then show ?thesis using r init_demo by (simp add: start_timer_when_stopped)
qed

subsection \<open>Toggling the autostart entry\<close>

lemma toggle_startup_entry:
  "run_key (toggle_startup h s) entry_name =
     (if run_key_access s = FullAccess then
        (if run_key s entry_name = None then Some (startup_command h s) else None)
      else run_key s entry_name)"
  by (simp add: toggle_startup_def toggle_failed_def is_startup_enabled_def Let_def
      split: access.splits option.splits sum.splits)

text \<open>
  C9. Whether the entry \<^verbatim>\<open>SoundbarTonePlayer\<close> exists under the Run key is the same
  after two calls of \<^verbatim>\<open>toggle_startup\<close> as before them, whatever the access to the key;
  with full access one call changes it, and \<^verbatim>\<open>is_startup_enabled\<close> reports the same
  before and after the two calls.
\<close>

theorem toggle_startup_twice:
  "(run_key (toggle_startup h (toggle_startup h s)) entry_name = None)
     = (run_key s entry_name = None)
   \<and> is_startup_enabled (toggle_startup h (toggle_startup h s)) = is_startup_enabled s
   \<and> (run_key_access s = FullAccess \<longrightarrow>
        (run_key (toggle_startup h s) entry_name = None) = (run_key s entry_name \<noteq> None))"
  by (auto simp add: toggle_startup_entry is_startup_enabled_def split: access.splits option.splits)

theorem toggle_startup_twice_witness:
  "run_key_access empty_world = FullAccess
   \<and> run_key empty_world entry_name = None
   \<and> run_key (toggle_startup demo_host empty_world) entry_name \<noteq> None
   \<and> run_key (toggle_startup demo_host (toggle_startup demo_host empty_world)) entry_name = None"
proof -
  have a: "run_key_access empty_world = FullAccess" and b: "run_key empty_world entry_name = None"
    by (simp_all add: empty_world_def)
  from toggle_startup_twice [of demo_host empty_world] show ?thesis
    using a b by simp
qed

subsection \<open>A cycle of the timer loop\<close>

lemma loop_head_running:
  assumes "running s"
    and "py_get (settings s) ''interval_minutes'' (PInt 10) = Inr v"
    and "py_mul60 h v = Inr secs" and "py_int h secs = Inr n"
  shows "loop_head h t s = set_thread t (InWait (nat n)) (snd (play_audio h s))"
  using assms by (simp add: loop_head_def Let_def)

lemma thread_step_at_loop_head:
  assumes "t < length (threads s)" and "threads s ! t = AtLoopHead"
  shows "thread_step h t s = loop_head h t s"
  using assms by (simp add: thread_step_def)

lemma thread_step_sleep:
  assumes "t < length (threads s)" and "threads s ! t = InWait (Suc k)" and "running s"
  shows "thread_step h t s = set_thread t (InWait k) (s\<lparr>trace := trace s @ [Slept t]\<rparr>)"
  using assms by (simp add: thread_step_def)

lemma thread_step_leave_wait:
  assumes "t < length (threads s)" and "threads s ! t = InWait k"
    and "k = 0 \<or> \<not> running s"
  shows "thread_step h t s = set_thread t AtLoopHead s"
  using assms by (cases k) (auto simp add: thread_step_def)

lemma wait_steps:
  assumes "t < length (threads s)" and "threads s ! t = InWait k" and "running s" and "j \<le> k"
  shows "run_threads h (replicate j t) s =
           s\<lparr>threads := (threads s)[t := InWait (k - j)],
             trace := trace s @ replicate j (Slept t)\<rparr>"
  using assms
proof (induction j arbitrary: s k)
  case 0
  have "(threads s)[t := InWait k] = threads s"
    using 0 by (metis list_update_id)
  then show ?case by simp
next
  case (Suc j)
  then obtain k' where k: "k = Suc k'" by (cases k) auto
  let ?s1 = "set_thread t (InWait k') (s\<lparr>trace := trace s @ [Slept t]\<rparr>)"
  have step: "thread_step h t s = ?s1"
    using Suc.prems k by (simp add: thread_step_sleep)
  have "run_threads h (replicate j t) ?s1 =
          ?s1\<lparr>threads := (threads ?s1)[t := InWait (k' - j)],
               trace := trace ?s1 @ replicate j (Slept t)\<rparr>"
    using Suc.prems k by (intro Suc.IH) simp_all
  then show ?case
    using k step by (simp add: set_thread_def replicate_app_Cons_same)
qed

lemma stopped_thread_returns:
  assumes "t < length (threads s)" and "threads s ! t = InWait k" and "\<not> running s"
  shows "run_threads h [t, t] s = s\<lparr>threads := (threads s)[t := Finished]\<rparr>"
proof -
  have "thread_step h t s = set_thread t AtLoopHead s"
    using assms by (simp add: thread_step_leave_wait)
  moreover have "thread_step h t (set_thread t AtLoopHead s) = set_thread t Finished s"
    using assms by (simp add: thread_step_def loop_head_def set_thread_def)
  ultimately show ?thesis by (simp add: set_thread_def)
qed

lemma stop_timer_in_wait:
  assumes "t < length (threads s)" and "threads s ! t = InWait k" and "running s"
    and "timer_thread s = Some t"
  shows "stop_timer h [t, t] s =
           s\<lparr>running := False, threads := (threads s)[t := Finished],
             trace := trace s @ [Log [Sym 0x1F6D1, Lit '' Stopped tone player timer''] newline]\<rparr>"
proof -
  let ?s1 = "s\<lparr>running := False\<rparr>"
  let ?s2 = "set_thread t AtLoopHead ?s1"
  have a: "thread_step h t ?s1 = ?s2"
    using assms by (simp add: thread_step_leave_wait)
  have b: "thread_step h t ?s2 = set_thread t Finished ?s1"
    using assms by (simp add: thread_step_def loop_head_def set_thread_def)
  have "join h t [t, t] ?s1 = set_thread t Finished ?s1"
    using assms a b by (simp add: thread_alive_def)
  then show ?thesis
    using assms by (simp add: stop_timer_def Let_def log_def set_thread_def)
qed

text \<open>
  C7. A cycle that finds the interval \<open>m\<close> plays and then enters the \<^verbatim>\<open>for\<close> loop with
  \<open>m * 60\<close> iterations to come (in general, with \<^verbatim>\<open>int(interval_minutes * 60)\<close>
  iterations). While the flag stays set, each step of the wait is one \<^verbatim>\<open>time.sleep(1)\<close>:
  after \<open>j\<close> steps the thread has slept \<open>j\<close> times and has \<open>k - j\<close> iterations left. The flag
  is tested before each sleep: with the flag cleared, wherever the wait stands, the
  thread's next two steps take it out of the \<^verbatim>\<open>for\<close> loop and out of \<^verbatim>\<open>timer_loop\<close>
  without another sleep, so a \<^verbatim>\<open>stop_timer\<close> whose join lasts these two steps returns
  with the thread ended and the rest of the interval not waited for.
\<close>

theorem wait_counts_seconds_and_tests_flag:
  assumes "t < length (threads s)"
  shows "(threads s ! t = AtLoopHead \<and> running s
            \<and> py_get (settings s) ''interval_minutes'' (PInt 10) = Inr (PInt m) \<longrightarrow>
          thread_step h t s = set_thread t (InWait (nat (m * 60))) (snd (play_audio h s)))
       \<and> (threads s ! t = AtLoopHead \<and> running s
            \<and> py_get (settings s) ''interval_minutes'' (PInt 10) = Inr v
            \<and> py_mul60 h v = Inr secs \<and> py_int h secs = Inr n \<longrightarrow>
          thread_step h t s = set_thread t (InWait (nat n)) (snd (play_audio h s)))
       \<and> (threads s ! t = InWait k \<and> running s \<and> j \<le> k \<longrightarrow>
          run_threads h (replicate j t) s =
            s\<lparr>threads := (threads s)[t := InWait (k - j)],
              trace := trace s @ replicate j (Slept t)\<rparr>)
       \<and> (threads s ! t = InWait k \<and> \<not> running s \<longrightarrow>
          run_threads h [t, t] s = s\<lparr>threads := (threads s)[t := Finished]\<rparr>)
       \<and> (threads s ! t = InWait k \<and> running s \<and> timer_thread s = Some t \<longrightarrow>
          stop_timer h [t, t] s =
            s\<lparr>running := False, threads := (threads s)[t := Finished],
              trace := trace s @ [Log [Sym 0x1F6D1, Lit '' Stopped tone player timer''] newline]\<rparr>)"
proof -
  have "thread_step h t s = set_thread t (InWait (nat (m * 60))) (snd (play_audio h s))"
    if "threads s ! t = AtLoopHead" "running s"
      "py_get (settings s) ''interval_minutes'' (PInt 10) = Inr (PInt m)"
    using assms that by (simp add: thread_step_at_loop_head loop_head_running [where n = "m * 60"])
  moreover have "thread_step h t s = set_thread t (InWait (nat n)) (snd (play_audio h s))"
    if "threads s ! t = AtLoopHead" "running s"
      "py_get (settings s) ''interval_minutes'' (PInt 10) = Inr v"
      "py_mul60 h v = Inr secs" "py_int h secs = Inr n"
    using assms that by (simp add: thread_step_at_loop_head loop_head_running)
  moreover have "run_threads h (replicate j t) s =
      s\<lparr>threads := (threads s)[t := InWait (k - j)], trace := trace s @ replicate j (Slept t)\<rparr>"
    if "threads s ! t = InWait k" "running s" "j \<le> k"
    using assms that by (rule wait_steps)
  moreover have "run_threads h [t, t] s = s\<lparr>threads := (threads s)[t := Finished]\<rparr>"
    if "threads s ! t = InWait k" "\<not> running s"
    using assms that by (rule stopped_thread_returns)
  moreover have "stop_timer h [t, t] s =
      s\<lparr>running := False, threads := (threads s)[t := Finished],
        trace := trace s @ [Log [Sym 0x1F6D1, Lit '' Stopped tone player timer''] newline]\<rparr>"
    if "threads s ! t = InWait k" "running s" "timer_thread s = Some t"
    using assms that by (rule stop_timer_in_wait)
  ultimately show ?thesis by blast
qed

lemma running_player_fields [simp]:
  "running running_player" "threads running_player = [AtLoopHead]"
  "settings running_player = default_settings" "timer_thread running_player = Some 0"
  "icon running_player = None" "trace running_player = []"
  by (simp_all add: running_player_def fresh_player_def empty_world_def)

lemma waiting_player_fields [simp]:
  "running waiting_player" "threads waiting_player = [InWait 3]"
  "settings waiting_player = default_settings" "timer_thread waiting_player = Some 0"
  "icon waiting_player = None" "trace waiting_player = []"
  by (simp_all add: waiting_player_def fresh_player_def empty_world_def)

lemma halted_player_fields [simp]:
  "\<not> running halted_player" "threads halted_player = [InWait 3]"
  by (simp_all add: halted_player_def)

theorem wait_counts_seconds_and_tests_flag_witness:
  "thread_step demo_host 0 running_player
     = set_thread 0 (InWait 600) (snd (play_audio demo_host running_player))
   \<and> run_threads demo_host [0, 0] waiting_player
     = waiting_player\<lparr>threads := [InWait 1], trace := [Slept 0, Slept 0]\<rparr>
   \<and> run_threads demo_host [0, 0] halted_player = halted_player\<lparr>threads := [Finished]\<rparr>
   \<and> stop_timer demo_host [0, 0] waiting_player
     = waiting_player\<lparr>running := False, threads := [Finished],
         trace := [Log [Sym 0x1F6D1, Lit '' Stopped tone player timer''] newline]\<rparr>"
proof -
  have a: "py_get (settings running_player) ''interval_minutes'' (PInt 10) = Inr (PInt 10)"
    by (simp add: default_settings_def)
  have "thread_step demo_host 0 running_player
          = set_thread 0 (InWait 600) (snd (play_audio demo_host running_player))"
    using wait_counts_seconds_and_tests_flag [where t = 0 and s = running_player and m = 10
        and h = demo_host] a
    by simp
  moreover have "thread_step demo_host 0 running_player
          = set_thread 0 (InWait (nat 600)) (snd (play_audio demo_host running_player))"
    using wait_counts_seconds_and_tests_flag [where t = 0 and s = running_player
        and v = "PInt 10" and secs = "PInt 600" and n = 600 and h = demo_host] a
    by simp
  moreover have "run_threads demo_host [0, 0] waiting_player
          = waiting_player\<lparr>threads := [InWait 1], trace := [Slept 0, Slept 0]\<rparr>"
    using wait_counts_seconds_and_tests_flag [where t = 0 and s = waiting_player and k = 3
        and j = 2 and h = demo_host]
    by (simp add: numeral_2_eq_2)
  moreover have "run_threads demo_host [0, 0] halted_player = halted_player\<lparr>threads := [Finished]\<rparr>"
    using wait_counts_seconds_and_tests_flag [where t = 0 and s = halted_player and k = 3
        and h = demo_host]
    by simp
  moreover have "stop_timer demo_host [0, 0] waiting_player
     = waiting_player\<lparr>running := False, threads := [Finished],
         trace := [Log [Sym 0x1F6D1, Lit '' Stopped tone player timer''] newline]\<rparr>"
    using wait_counts_seconds_and_tests_flag [where t = 0 and s = waiting_player and k = 3
        and h = demo_host]
    by simp
  ultimately show ?thesis by simp
qed

subsection \<open>Errors of a cycle\<close>

lemma loop_head_iterations:
  assumes "running s" and "interval_iterations h s = Inr n"
  shows "loop_head h t s = set_thread t (InWait n) (snd (play_audio h s))"
  using assms
  by (auto simp add: loop_head_def interval_iterations_def Let_def split: sum.splits)

lemma loop_head_result:
  assumes "t < length (threads s)"
  shows "threads (loop_head h t s) ! t =
           (if \<not> running s then Finished
            else case interval_iterations h s of Inl e \<Rightarrow> Crashed e | Inr n \<Rightarrow> InWait n)"
  using assms
  by (auto simp add: loop_head_def interval_iterations_def Let_def split: sum.splits)

lemma thread_step_other:
  assumes "t \<noteq> t'"
  shows "threads (thread_step h t' s) ! t = threads s ! t"
  using assms
  by (auto simp add: thread_step_def loop_head_def Let_def split: tstate.splits nat.splits sum.splits)

lemma thread_step_ends:
  assumes "t < length (threads s)" and "is_live (threads s ! t)"
    and "\<not> is_live (threads (thread_step h t' s) ! t)"
  shows "threads s ! t = AtLoopHead \<and> t' = t
       \<and> threads (thread_step h t' s) ! t =
           (if \<not> running s then Finished
            else case interval_iterations h s of Inl e \<Rightarrow> Crashed e | Inr n \<Rightarrow> InWait n)"
proof (cases "t' = t")
  case False
  with assms show ?thesis by (simp add: thread_step_other)
next
  case True
  show ?thesis
  proof (cases "threads s ! t")
    case AtLoopHead
    with assms True show ?thesis
      by (simp add: thread_step_at_loop_head loop_head_result)
  next
    case (InWait k)
    with assms True show ?thesis
      by (cases k) (auto simp add: thread_step_def split: if_splits)
  next
    case Finished
    with assms show ?thesis by simp
  next
    case (Crashed e)
    with assms show ?thesis by simp
  qed
qed

lemma run_threads_append:
  "run_threads h (xs @ ys) s = run_threads h ys (run_threads h xs s)"
  by (induction xs arbitrary: s) simp_all

lemma play_audio_error_outcomes:
  "(get_audio_path h s = Inl e \<longrightarrow> \<not> fst (play_audio h s))
   \<and> (get_audio_path h s = Inr p \<and> fs s p = None \<longrightarrow> \<not> fst (play_audio h s))
   \<and> (get_audio_path h s = Inr p \<and> fs s p \<noteq> None \<and> audio_stack h p = Some e \<longrightarrow>
        \<not> fst (play_audio h s))
   \<and> (get_audio_path h s = Inr p \<and> fs s p \<noteq> None \<and> audio_stack h p = None \<longrightarrow>
        fst (play_audio h s))"
  by (auto simp add: play_audio_def play_audio_failed_def Let_def)

subsection \<open>Changing the interval\<close>

lemma map_of_dict_set: "map_of (dict_set kvs k v) k = Some v"
  by (induction kvs) auto

lemma settings_path_update [simp]:
  "settings_path h (s\<lparr>settings := st\<rparr>) = settings_path h s"
  by (simp add: settings_path_def)

lemma live_threads_finish:
  assumes "t < length xs" and "is_live (xs ! t)"
  shows "Suc (length (filter is_live (xs[t := Finished]))) = length (filter is_live xs)"
  using assms
proof (induction xs arbitrary: t)
  case Nil
  then show ?case by simp
next
  case (Cons x xs)
  then show ?case by (cases t) auto
qed

lemma is_startup_enabled_save [simp]:
  "is_startup_enabled (save_settings h s) = is_startup_enabled s"
  "is_startup_enabled (s\<lparr>settings := st\<rparr>) = is_startup_enabled s"
  by (simp_all add: is_startup_enabled_def split: access.splits)

lemma set_interval_stopped:
  assumes "settings s = PDict kvs" and "\<not> running s"
  shows "set_interval h v sj ss s =
           (None,
            s\<lparr>settings := PDict (dict_set kvs ''interval_minutes'' v),
              fs := (fs s)(settings_path h s \<mapsto>
                      json_dumps h 0 (PDict (dict_set kvs ''interval_minutes'' v))),
              icon := (case icon s of
                         None \<Rightarrow> None
                       | Some m \<Rightarrow> Some \<lparr>startup_checked = is_startup_enabled s,
                                         current_interval = v\<rparr>),
              trace := trace s @
                       (case icon s of
                          None \<Rightarrow> []
                        | Some m \<Rightarrow> [Notify ''Interval Updated''
                                       [Lit ''Now playing every '', Val v, Lit '' minute(s)'']])\<rparr>)"
proof -
  define st where "st = PDict (dict_set kvs ''interval_minutes'' v)"
  define s1 where "s1 = save_settings h (s\<lparr>settings := st\<rparr>)"
  have menu: "create_menu s1 = Inr \<lparr>startup_checked = is_startup_enabled s, current_interval = v\<rparr>"
    by (simp add: create_menu_def s1_def st_def map_of_dict_set)
  have s1: "s1 = s\<lparr>settings := st, fs := (fs s)(settings_path h s \<mapsto> json_dumps h 0 st)\<rparr>"
    by (simp add: s1_def save_settings_def)
  have s1_fields: "\<not> running s1" "icon s1 = icon s"
    using assms by (simp_all add: s1_def)
  have "set_interval h v sj ss s =
          (case icon s of
             None \<Rightarrow> (None, s1)
           | Some m \<Rightarrow>
               (None, notify_if_icon ''Interval Updated''
                        [Lit ''Now playing every '', Val v, Lit '' minute(s)'']
                        (s1\<lparr>icon := Some \<lparr>startup_checked = is_startup_enabled s,
                                          current_interval = v\<rparr>\<rparr>)))"
    using assms menu s1_fields
    by (cases "icon s")
       (simp_all add: set_interval_def Let_def s1_def [symmetric] st_def [symmetric]
          notify_if_icon_def)
  then show ?thesis
    unfolding st_def [symmetric]
    by (cases "icon s") (simp_all add: s1 notify_if_icon_def)
qed

lemma set_interval_running:
  assumes "settings s = PDict kvs" and "running s"
  shows "fst (set_interval h v sj ss s) = None"
    and "settings (snd (set_interval h v sj ss s)) = PDict (dict_set kvs ''interval_minutes'' v)"
    and "fs (snd (set_interval h v sj ss s)) =
           (fs s)(settings_path h s \<mapsto> json_dumps h 0 (PDict (dict_set kvs ''interval_minutes'' v)))"
    and "running (snd (set_interval h v sj ss s))"
    and "timer_thread (snd (set_interval h v sj ss s)) = Some (length (threads s))"
    and "threads (snd (set_interval h v sj ss s)) =
           threads (run_threads h ss (stop_timer h sj
             (save_settings h (s\<lparr>settings := PDict (dict_set kvs ''interval_minutes'' v)\<rparr>))))
           @ [AtLoopHead]"
proof -
  define st where "st = PDict (dict_set kvs ''interval_minutes'' v)"
  define x where "x = run_threads h ss (stop_timer h sj (save_settings h (s\<lparr>settings := st\<rparr>)))"
  have stopped: "\<not> running x" by (simp add: x_def)
  have sx: "settings x = st" by (simp add: x_def)
  have ok: "fst (start_timer x) = None"
    using stopped sx
    by (simp add: start_timer_def Let_def st_def map_of_dict_set split: option.splits)
  have res: "set_interval h v sj ss s =
          (None, notify_if_icon ''Interval Updated''
                   [Lit ''Now playing every '', Val v, Lit '' minute(s)''] (snd (start_timer x)))"
  proof -
    obtain s2 where started: "start_timer x = (None, s2)"
      using ok by (cases "start_timer x") simp
    then show ?thesis
      using assms
      by (simp add: set_interval_def Let_def x_def [symmetric] st_def [symmetric])
  qed
  show "fst (set_interval h v sj ss s) = None" by (simp add: res)
  show "settings (snd (set_interval h v sj ss s)) = PDict (dict_set kvs ''interval_minutes'' v)"
    using stopped sx by (simp add: res start_timer_when_stopped st_def)
  show "fs (snd (set_interval h v sj ss s)) =
           (fs s)(settings_path h s \<mapsto> json_dumps h 0 (PDict (dict_set kvs ''interval_minutes'' v)))"
    using stopped by (simp add: res start_timer_when_stopped x_def st_def save_settings_def)
  show "running (snd (set_interval h v sj ss s))"
    using stopped by (simp add: res start_timer_when_stopped)
  show "timer_thread (snd (set_interval h v sj ss s)) = Some (length (threads s))"
    using stopped by (simp add: res start_timer_when_stopped) (simp add: x_def)
  show "threads (snd (set_interval h v sj ss s)) =
           threads (run_threads h ss (stop_timer h sj
             (save_settings h (s\<lparr>settings := PDict (dict_set kvs ''interval_minutes'' v)\<rparr>))))
           @ [AtLoopHead]"
    using stopped by (simp add: res start_timer_when_stopped) (simp add: x_def st_def)
qed

lemma set_interval_new_thread:
  assumes "settings s = PDict kvs" and "running s"
  shows "length (threads (snd (set_interval h v sj ss s))) = Suc (length (threads s))"
    and "threads (snd (set_interval h v sj ss s)) ! length (threads s) = AtLoopHead"
proof -
  define x where "x = run_threads h ss (stop_timer h sj
      (save_settings h (s\<lparr>settings := PDict (dict_set kvs ''interval_minutes'' v)\<rparr>)))"
  have len: "length (threads x) = length (threads s)" by (simp add: x_def)
  have thr: "threads (snd (set_interval h v sj ss s)) = threads x @ [AtLoopHead]"
    using set_interval_running(6) [OF assms] by (simp add: x_def)
  show "length (threads (snd (set_interval h v sj ss s))) = Suc (length (threads s))"
    by (simp add: thr len)
  show "threads (snd (set_interval h v sj ss s)) ! length (threads s) = AtLoopHead"
    using nth_append_length [of "threads x" AtLoopHead "[]"] by (simp add: thr len)
qed

lemma set_interval_first_cycle:
  assumes "settings s = PDict kvs" and "running s"
  shows "thread_step h (length (threads s)) (snd (set_interval h (PInt v) sj ss s)) =
           set_thread (length (threads s)) (InWait (nat (v * 60)))
             (snd (play_audio h (snd (set_interval h (PInt v) sj ss s))))"
proof -
  let ?s' = "snd (set_interval h (PInt v) sj ss s)"
  have "py_get (settings ?s') ''interval_minutes'' (PInt 10) = Inr (PInt v)"
    by (simp add: set_interval_running(2) [OF assms] map_of_dict_set)
  moreover have "running ?s'" by (rule set_interval_running(4) [OF assms])
  moreover have "length (threads s) < length (threads ?s')"
    by (simp add: set_interval_new_thread(1) [OF assms])
  moreover have "threads ?s' ! length (threads s) = AtLoopHead"
    by (rule set_interval_new_thread(2) [OF assms])
  ultimately show ?thesis
    by (simp add: thread_step_at_loop_head loop_head_running [where n = "v * 60"])
qed

lemma set_interval_then_wait:
  assumes "settings s = PDict kvs" and "running s"
  shows "run_threads h (replicate (nat (v * 60)) (length (threads s)))
           (thread_step h (length (threads s)) (snd (set_interval h (PInt v) sj ss s))) =
         (thread_step h (length (threads s)) (snd (set_interval h (PInt v) sj ss s)))
           \<lparr>threads :=
              (threads (thread_step h (length (threads s)) (snd (set_interval h (PInt v) sj ss s))))
                [length (threads s) := InWait 0],
            trace :=
              trace (thread_step h (length (threads s)) (snd (set_interval h (PInt v) sj ss s)))
                @ replicate (nat (v * 60)) (Slept (length (threads s)))\<rparr>"
proof -
  let ?t = "length (threads s)"
  let ?s' = "snd (set_interval h (PInt v) sj ss s)"
  let ?s1 = "thread_step h ?t ?s'"
  have len: "?t < length (threads ?s1)"
    by (simp add: set_interval_new_thread(1) [OF assms])
  have "?t < length (threads ?s')"
    by (simp add: set_interval_new_thread(1) [OF assms])
  then have w: "threads ?s1 ! ?t = InWait (nat (v * 60))"
    by (simp add: set_interval_first_cycle [OF assms])
  have r: "running ?s1" by (simp add: set_interval_running(4) [OF assms])
  from wait_steps [OF len w r, of "nat (v * 60)" h] show ?thesis by simp
qed

lemma set_interval_live_threads:
  assumes "settings s = PDict kvs" and "running s" and "timer_thread s = Some t0"
    and "t0 < length (threads s)" and "threads s ! t0 = InWait k"
  shows "live_threads (snd (set_interval h v [t0, t0] [] s)) = live_threads s"
proof -
  let ?s1 = "save_settings h (s\<lparr>settings := PDict (dict_set kvs ''interval_minutes'' v)\<rparr>)"
  have "threads (stop_timer h [t0, t0] ?s1) = (threads ?s1)[t0 := Finished]"
    using assms by (subst stop_timer_in_wait [where k = k]) simp_all
  then have "threads (snd (set_interval h v [t0, t0] [] s))
               = (threads s)[t0 := Finished] @ [AtLoopHead]"
    by (simp add: set_interval_running(6) [OF assms(1,2)])
  moreover have "is_live (threads s ! t0)" using assms by simp
  ultimately show ?thesis
    using live_threads_finish [OF assms(4)] by (simp add: live_threads_def)
qed

text \<open>
  What \<^verbatim>\<open>set_interval\<close> does under every schedule, and what it does to the old
  thread under one. Let the settings be a record and \<open>v\<close> positive. \<^verbatim>\<open>set_interval(v)\<close> returns
  normally, the settings in memory have \<^verbatim>\<open>interval_minutes\<close> equal to \<open>v\<close>, and the
  settings file holds the text of the whole record. If the loop was running, the flag is
  set again afterwards and \<open>timer_thread\<close> names one new thread at the head of its loop;
  the first step of that thread is a playback attempt followed by the entry into a wait
  of \<open>v * 60\<close> iterations, and while the flag stays set the thread then sleeps \<open>v * 60\<close>
  times one second before it is at the end of the wait. If the old thread was in its wait
  and ended during the join, as many loop threads are live after the call as before. If
  the loop was stopped, no thread is started and nothing is played: only the settings,
  the file, the menu of the icon (if there is one) and the one notification change.
\<close>

lemma set_interval_restarts_loop:
  assumes "settings s = PDict kvs" and "0 < v"
  shows
    "(running s \<longrightarrow>
        (let s' = snd (set_interval h (PInt v) sj ss s); t = length (threads s) in
           fst (set_interval h (PInt v) sj ss s) = None
         \<and> settings s' = PDict (dict_set kvs ''interval_minutes'' (PInt v))
         \<and> py_get (settings s') ''interval_minutes'' (PInt 10) = Inr (PInt v)
         \<and> fs s' = (fs s)(settings_path h s \<mapsto> json_dumps h 0 (settings s'))
         \<and> running s'
         \<and> timer_thread s' = Some t
         \<and> length (threads s') = Suc t
         \<and> threads s' ! t = AtLoopHead
         \<and> thread_step h t s' = set_thread t (InWait (nat (v * 60))) (snd (play_audio h s'))
         \<and> run_threads h (replicate (nat (v * 60)) t) (thread_step h t s') =
             (thread_step h t s')
               \<lparr>threads := (threads (thread_step h t s'))[t := InWait 0],
                trace := trace (thread_step h t s') @ replicate (nat (v * 60)) (Slept t)\<rparr>))
   \<and> (running s \<and> timer_thread s = Some t0 \<and> t0 < length (threads s)
        \<and> threads s ! t0 = InWait k \<longrightarrow>
        live_threads (snd (set_interval h (PInt v) [t0, t0] [] s)) = live_threads s)
   \<and> (\<not> running s \<longrightarrow>
        set_interval h (PInt v) sj ss s =
          (None,
           s\<lparr>settings := PDict (dict_set kvs ''interval_minutes'' (PInt v)),
             fs := (fs s)(settings_path h s \<mapsto>
                     json_dumps h 0 (PDict (dict_set kvs ''interval_minutes'' (PInt v)))),
             icon := (case icon s of
                        None \<Rightarrow> None
                      | Some m \<Rightarrow> Some \<lparr>startup_checked = is_startup_enabled s,
                                        current_interval = PInt v\<rparr>),
             trace := trace s @
                      (case icon s of
                         None \<Rightarrow> []
                       | Some m \<Rightarrow> [Notify ''Interval Updated''
                                      [Lit ''Now playing every '', Val (PInt v),
                                       Lit '' minute(s)'']])\<rparr>))"
proof -
  have restart:
    "(let s' = snd (set_interval h (PInt v) sj ss s); t = length (threads s) in
           fst (set_interval h (PInt v) sj ss s) = None
         \<and> settings s' = PDict (dict_set kvs ''interval_minutes'' (PInt v))
         \<and> py_get (settings s') ''interval_minutes'' (PInt 10) = Inr (PInt v)
         \<and> fs s' = (fs s)(settings_path h s \<mapsto> json_dumps h 0 (settings s'))
         \<and> running s'
         \<and> timer_thread s' = Some t
         \<and> length (threads s') = Suc t
         \<and> threads s' ! t = AtLoopHead
         \<and> thread_step h t s' = set_thread t (InWait (nat (v * 60))) (snd (play_audio h s'))
         \<and> run_threads h (replicate (nat (v * 60)) t) (thread_step h t s') =
             (thread_step h t s')
               \<lparr>threads := (threads (thread_step h t s'))[t := InWait 0],
                trace := trace (thread_step h t s') @ replicate (nat (v * 60)) (Slept t)\<rparr>)"
    if r: "running s"
    unfolding Let_def
    using set_interval_running [OF assms(1) r, of h "PInt v" sj ss]
      set_interval_new_thread [OF assms(1) r, of h "PInt v" sj ss]
      set_interval_first_cycle [OF assms(1) r, of h v sj ss]
      set_interval_then_wait [OF assms(1) r, of h v sj ss]
    by (simp add: map_of_dict_set)
  have old: "live_threads (snd (set_interval h (PInt v) [t0, t0] [] s)) = live_threads s"
    if "running s" "timer_thread s = Some t0" "t0 < length (threads s)"
      "threads s ! t0 = InWait k"
    using assms(1) that by (rule set_interval_live_threads)
  have stopped: "set_interval h (PInt v) sj ss s =
          (None,
           s\<lparr>settings := PDict (dict_set kvs ''interval_minutes'' (PInt v)),
             fs := (fs s)(settings_path h s \<mapsto>
                     json_dumps h 0 (PDict (dict_set kvs ''interval_minutes'' (PInt v)))),
             icon := (case icon s of
                        None \<Rightarrow> None
                      | Some m \<Rightarrow> Some \<lparr>startup_checked = is_startup_enabled s,
                                        current_interval = PInt v\<rparr>),
             trace := trace s @
                      (case icon s of
                         None \<Rightarrow> []
                       | Some m \<Rightarrow> [Notify ''Interval Updated''
                                      [Lit ''Now playing every '', Val (PInt v),
                                       Lit '' minute(s)'']])\<rparr>)"
    if "\<not> running s"
    using assms(1) that by (rule set_interval_stopped)
  show ?thesis using restart old stopped by blast
qed

lemma tray_player_fields [simp]:
  "\<not> running tray_player" "settings tray_player = default_settings"
  "icon tray_player = Some \<lparr>startup_checked = False, current_interval = PInt 10\<rparr>"
  "threads tray_player = []" "trace tray_player = []"
  by (simp_all add: tray_player_def fresh_player_def empty_world_def)

lemma set_interval_restarts_loop_example:
  "settings waiting_player = PDict [(''tone_file'', PStr ''tone.wav''), (''interval_minutes'', PInt 10)]
   \<and> running waiting_player
   \<and> settings (snd (set_interval demo_host (PInt 5) [0, 0] [] waiting_player))
       = PDict [(''tone_file'', PStr ''tone.wav''), (''interval_minutes'', PInt 5)]
   \<and> running (snd (set_interval demo_host (PInt 5) [0, 0] [] waiting_player))
   \<and> timer_thread (snd (set_interval demo_host (PInt 5) [0, 0] [] waiting_player)) = Some 1
   \<and> threads (snd (set_interval demo_host (PInt 5) [0, 0] [] waiting_player)) ! 1 = AtLoopHead
   \<and> threads (thread_step demo_host 1 (snd (set_interval demo_host (PInt 5) [0, 0] [] waiting_player))) ! 1
       = InWait 300
   \<and> live_threads (snd (set_interval demo_host (PInt 5) [0, 0] [] waiting_player)) = 1
   \<and> \<not> running tray_player
   \<and> running (snd (set_interval demo_host (PInt 5) [] [] tray_player)) = False
   \<and> threads (snd (set_interval demo_host (PInt 5) [] [] tray_player)) = []
   \<and> trace (snd (set_interval demo_host (PInt 5) [] [] tray_player))
       = [Notify ''Interval Updated'' [Lit ''Now playing every '', Val (PInt 5), Lit '' minute(s)'']]"
proof -
  have a: "settings waiting_player
             = PDict [(''tone_file'', PStr ''tone.wav''), (''interval_minutes'', PInt 10)]"
    by (simp add: default_settings_def)
  have b: "settings tray_player
             = PDict [(''tone_file'', PStr ''tone.wav''), (''interval_minutes'', PInt 10)]"
    by (simp add: default_settings_def)
  have v: "(0::int) < 5" by simp
  have live: "live_threads waiting_player = 1" by (simp add: live_threads_def)
  let ?s' = "snd (set_interval demo_host (PInt 5) [0, 0] [] waiting_player)"
  from set_interval_restarts_loop [OF a v, of demo_host "[0, 0]" "[]" 0 3]
  have r: "settings ?s' = PDict [(''tone_file'', PStr ''tone.wav''), (''interval_minutes'', PInt 5)]
      \<and> running ?s' \<and> timer_thread ?s' = Some 1 \<and> length (threads ?s') = 2
      \<and> threads ?s' ! 1 = AtLoopHead
      \<and> thread_step demo_host 1 ?s' = set_thread 1 (InWait 300) (snd (play_audio demo_host ?s'))
      \<and> live_threads ?s' = 1"
    using live by (simp add: Let_def)
  then have w: "threads (thread_step demo_host 1 ?s') ! 1 = InWait 300" by simp
  from set_interval_restarts_loop [OF b v, of demo_host "[]" "[]" 0 3]
  have s: "running (snd (set_interval demo_host (PInt 5) [] [] tray_player)) = False
      \<and> threads (snd (set_interval demo_host (PInt 5) [] [] tray_player)) = []
      \<and> trace (snd (set_interval demo_host (PInt 5) [] [] tray_player))
          = [Notify ''Interval Updated'' [Lit ''Now playing every '', Val (PInt 5), Lit '' minute(s)'']]"
    by simp
  show ?thesis using a r w s by simp
qed

subsection \<open>The two trays agree when \<^verbatim>\<open>notify\<close> returns\<close>

lemma notify_with_quiet:
  "(\<forall>a b. tr a b = None) \<Longrightarrow> notify_with tr a b s = (None, notify_if_icon a b s)"
  by (simp add: notify_with_def notify_if_icon_def split: option.splits)

lemma play_audio_failed_with_quiet:
  "(\<forall>a b. tr a b = None) \<Longrightarrow>
     play_audio_failed_with tr e s = (Inr False, snd (play_audio_failed e s))"
  by (simp add: play_audio_failed_with_def play_audio_failed_def notify_with_quiet)

lemma play_audio_with_quiet:
  assumes "\<forall>a b. tr a b = None"
  shows "play_audio_with tr h s = (Inr (fst (play_audio h s)), snd (play_audio h s))"
  using assms
  by (simp add: play_audio_with_def play_audio_def notify_with_quiet
      play_audio_failed_with_quiet play_audio_failed_def Let_def split: sum.splits option.splits)

lemma loop_head_with_quiet:
  assumes "\<forall>a b. tr a b = None"
  shows "loop_head_with tr h t s = loop_head h t s"
  by (simp add: loop_head_with_def loop_head_def play_audio_with_quiet [OF assms] Let_def
      split: sum.splits)

lemma thread_step_with_quiet:
  assumes "\<forall>a b. tr a b = None"
  shows "thread_step_with tr h t s = thread_step h t s"
  by (simp add: thread_step_with_def thread_step_def loop_head_with_quiet [OF assms]
      split: tstate.splits)

lemma run_threads_with_quiet:
  assumes "\<forall>a b. tr a b = None"
  shows "run_threads_with tr h sched s = run_threads h sched s"
  by (induction sched arbitrary: s) (simp_all add: thread_step_with_quiet [OF assms])

subsection \<open>A missing audio file\<close>

text \<open>
  C4, as the code has it. Let the resolved audio file not exist. With no tray icon,
  \<^verbatim>\<open>play_audio\<close> returns \<open>False\<close> and there is no notification. With an icon whose
  \<^verbatim>\<open>notify\<close> returns, it returns \<open>False\<close> and there is the one not-found notification.
  With an icon whose \<^verbatim>\<open>notify\<close> raises \<open>e\<close> on the not-found message, there is no
  not-found notification; the outer handler notifies \<open>e\<close>, and \<^verbatim>\<open>play_audio\<close> returns
  \<open>False\<close> if that call returns and raises what that call raises otherwise.
\<close>

theorem play_audio_with_file_not_found:
  assumes "get_audio_path h s = Inr p" and "fs s p = None"
  shows "(icon s = None \<longrightarrow>
            play_audio_with tr h s =
              (Inr False,
               s\<lparr>trace := trace s @
                    [Log [Sym 0x274C, Lit '' Audio file not found: '', Lit p] newline]\<rparr>))
       \<and> (icon s \<noteq> None
            \<and> tr ''Error'' [Lit ''Audio file not found: '', Lit (path_name h p)] = None \<longrightarrow>
            play_audio_with tr h s =
              (Inr False,
               s\<lparr>trace := trace s @
                    [Log [Sym 0x274C, Lit '' Audio file not found: '', Lit p] newline,
                     Notify ''Error'' [Lit ''Audio file not found: '', Lit (path_name h p)]]\<rparr>))
       \<and> (icon s \<noteq> None
            \<and> tr ''Error'' [Lit ''Audio file not found: '', Lit (path_name h p)] = Some e
            \<and> tr ''Error'' [ExcStr e] = None \<longrightarrow>
            play_audio_with tr h s =
              (Inr False,
               s\<lparr>trace := trace s @
                    [Log [Sym 0x274C, Lit '' Audio file not found: '', Lit p] newline,
                     Log [Lit newline, Sym 0x274C, Lit '' Error playing audio: '', ExcStr e] newline,
                     Notify ''Error'' [ExcStr e]]\<rparr>))
       \<and> (icon s \<noteq> None
            \<and> tr ''Error'' [Lit ''Audio file not found: '', Lit (path_name h p)] = Some e
            \<and> tr ''Error'' [ExcStr e] = Some e' \<longrightarrow>
            play_audio_with tr h s =
              (Inl e',
               s\<lparr>trace := trace s @
                    [Log [Sym 0x274C, Lit '' Audio file not found: '', Lit p] newline,
                     Log [Lit newline, Sym 0x274C, Lit '' Error playing audio: '', ExcStr e]
                       newline]\<rparr>))"
  using assms
  by (auto simp add: play_audio_with_def play_audio_failed_with_def notify_with_def log_def)

lemma tray_player_audio_path:
  "get_audio_path demo_host tray_player = Inr ''./tone.wav''"
  "fs tray_player ''./tone.wav'' = None"
  "icon tray_player \<noteq> None" "trace tray_player = []"
  "path_name demo_host ''./tone.wav'' = ''tone.wav''"
  by (simp_all add: get_audio_path_def tray_player_def fresh_player_def empty_world_def
      default_settings_def demo_host_def get_base_path_def)

theorem play_audio_with_file_not_found_witness:
  "get_audio_path demo_host tray_player = Inr ''./tone.wav''
   \<and> fs tray_player ''./tone.wav'' = None
   \<and> fst (play_audio_with quiet_tray demo_host tray_player) = Inr False
   \<and> trace (snd (play_audio_with quiet_tray demo_host tray_player)) =
       [Log [Sym 0x274C, Lit '' Audio file not found: '', Lit ''./tone.wav''] newline,
        Notify ''Error'' [Lit ''Audio file not found: '', Lit ''tone.wav'']]
   \<and> fst (play_audio_with picky_tray demo_host tray_player) = Inr False
   \<and> trace (snd (play_audio_with picky_tray demo_host tray_player)) =
       [Log [Sym 0x274C, Lit '' Audio file not found: '', Lit ''./tone.wav''] newline,
        Log [Lit newline, Sym 0x274C, Lit '' Error playing audio: '', ExcStr OSError] newline,
        Notify ''Error'' [ExcStr OSError]]
   \<and> fst (play_audio_with broken_tray demo_host tray_player) = Inl OSError
   \<and> fst (play_audio_with broken_tray demo_host (tray_player\<lparr>icon := None\<rparr>)) = Inr False"
proof -
  note f = tray_player_audio_path
  have g: "get_audio_path demo_host (tray_player\<lparr>icon := None\<rparr>) = Inr ''./tone.wav''"
    "fs (tray_player\<lparr>icon := None\<rparr>) ''./tone.wav'' = None"
    using f(1,2) by (simp_all add: get_audio_path_def)
  have "play_audio_with quiet_tray demo_host tray_player =
          (Inr False,
           tray_player\<lparr>trace :=
             [Log [Sym 0x274C, Lit '' Audio file not found: '', Lit ''./tone.wav''] newline,
              Notify ''Error'' [Lit ''Audio file not found: '', Lit ''tone.wav'']]\<rparr>)"
    using play_audio_with_file_not_found [OF f(1) f(2), of quiet_tray] f
    by (simp add: quiet_tray_def)
  moreover have "play_audio_with picky_tray demo_host tray_player =
          (Inr False,
           tray_player\<lparr>trace :=
             [Log [Sym 0x274C, Lit '' Audio file not found: '', Lit ''./tone.wav''] newline,
              Log [Lit newline, Sym 0x274C, Lit '' Error playing audio: '', ExcStr OSError] newline,
              Notify ''Error'' [ExcStr OSError]]\<rparr>)"
    using play_audio_with_file_not_found [OF f(1) f(2), of picky_tray OSError] f
    by (simp add: picky_tray_def)
  moreover have "fst (play_audio_with broken_tray demo_host tray_player) = Inl OSError"
    using play_audio_with_file_not_found [OF f(1) f(2), of broken_tray OSError OSError] f
    by (simp add: broken_tray_def)
  moreover have "fst (play_audio_with broken_tray demo_host (tray_player\<lparr>icon := None\<rparr>)) = Inr False"
    using play_audio_with_file_not_found [OF g, of broken_tray] by simp
  ultimately show ?thesis using f by simp
qed

text \<open>
  C4 as the spec states it fails in two ways. Where no icon is attached, as in
  \<^verbatim>\<open>--test\<close> mode, the audio file of the fresh player does not exist, \<^verbatim>\<open>play_audio\<close>
  returns \<open>False\<close>, and there is no notification among the events. Where an icon is
  attached and its \<^verbatim>\<open>notify\<close> raises, \<^verbatim>\<open>play_audio\<close> raises to its caller, again
  with no notification.
\<close>

theorem play_audio_not_found_counterexample:
  "get_audio_path demo_host fresh_player = Inr ''./tone.wav''
   \<and> fs fresh_player ''./tone.wav'' = None
   \<and> icon fresh_player = None
   \<and> play_audio_with quiet_tray demo_host fresh_player =
       (Inr False,
        fresh_player\<lparr>trace :=
          [Log [Sym 0x274C, Lit '' Audio file not found: '', Lit ''./tone.wav''] newline]\<rparr>)
   \<and> get_audio_path demo_host tray_player = Inr ''./tone.wav''
   \<and> fs tray_player ''./tone.wav'' = None
   \<and> play_audio_with broken_tray demo_host tray_player =
       (Inl OSError,
        tray_player\<lparr>trace :=
          [Log [Sym 0x274C, Lit '' Audio file not found: '', Lit ''./tone.wav''] newline,
           Log [Lit newline, Sym 0x274C, Lit '' Error playing audio: '', ExcStr OSError] newline]\<rparr>)"
  by (simp add: play_audio_with_def play_audio_failed_with_def notify_with_def log_def
      get_audio_path_def get_base_path_def demo_host_def quiet_tray_def broken_tray_def
      tray_player_def fresh_player_def empty_world_def default_settings_def)

subsection \<open>How a timer thread can end\<close>

lemma notify_with_frame:
  "snd (notify_with tr a b s) = s\<lparr>trace := trace (snd (notify_with tr a b s))\<rparr>"
  by (simp add: notify_with_def split: option.splits)

lemma play_audio_failed_with_frame:
  "snd (play_audio_failed_with tr e s) = s\<lparr>trace := trace (snd (play_audio_failed_with tr e s))\<rparr>"
  by (simp add: play_audio_failed_with_def notify_with_def log_def split: option.splits)

lemma play_audio_with_frame:
  "snd (play_audio_with tr h s) = s\<lparr>trace := trace (snd (play_audio_with tr h s))\<rparr>"
  by (simp add: play_audio_with_def play_audio_failed_with_def notify_with_def log_def Let_def
      split: sum.splits option.splits)

lemma play_audio_with_fields [simp]:
  "settings (snd (play_audio_with tr h s)) = settings s"
  "running (snd (play_audio_with tr h s)) = running s"
  "timer_thread (snd (play_audio_with tr h s)) = timer_thread s"
  "icon (snd (play_audio_with tr h s)) = icon s"
  "threads (snd (play_audio_with tr h s)) = threads s"
  "fs (snd (play_audio_with tr h s)) = fs s"
  by (subst play_audio_with_frame, simp)+

lemma play_audio_failed_with_raises:
  assumes "fst (play_audio_failed_with tr x s) = Inl e"
  shows "icon s \<noteq> None \<and> tr ''Error'' [ExcStr x] = Some e"
  using assms
  by (auto simp add: play_audio_failed_with_def notify_with_def log_def split: option.splits)

lemma play_audio_with_raises:
  assumes "fst (play_audio_with tr h s) = Inl e"
  shows "icon s \<noteq> None \<and> (\<exists>x. tr ''Error'' [ExcStr x] = Some e)"
  using assms
  by (auto simp add: play_audio_with_def notify_with_def log_def Let_def
      split: sum.splits option.splits if_splits dest!: play_audio_failed_with_raises)

lemma play_audio_with_error_outcomes:
  assumes "icon s = None \<or> (\<forall>a b. tr a b = None)"
  shows "(get_audio_path h s = Inl e \<longrightarrow> fst (play_audio_with tr h s) = Inr False)
       \<and> (get_audio_path h s = Inr p \<and> fs s p = None \<longrightarrow>
            fst (play_audio_with tr h s) = Inr False)
       \<and> (get_audio_path h s = Inr p \<and> fs s p \<noteq> None \<and> audio_stack h p = Some e \<longrightarrow>
            fst (play_audio_with tr h s) = Inr False)"
  using assms
  by (auto simp add: play_audio_with_def play_audio_failed_with_def notify_with_def log_def
      Let_def split: option.splits)

lemma loop_head_with_alt:
  "loop_head_with tr h t s =
     (if \<not> running s then set_thread t Finished s
      else case py_get (settings s) ''interval_minutes'' (PInt 10) of
             Inl e \<Rightarrow> set_thread t (Crashed e) s
           | Inr interval_minutes \<Rightarrow>
              (case py_mul60 h interval_minutes of
                 Inl e \<Rightarrow> set_thread t (Crashed e) s
               | Inr interval_seconds \<Rightarrow>
                  (case fst (play_audio_with tr h s) of
                     Inl e \<Rightarrow> set_thread t (Crashed e) (snd (play_audio_with tr h s))
                   | Inr played \<Rightarrow>
                      (case py_int h interval_seconds of
                         Inl e \<Rightarrow> set_thread t (Crashed e) (snd (play_audio_with tr h s))
                       | Inr n \<Rightarrow> set_thread t (InWait (nat n)) (snd (play_audio_with tr h s))))))"
  by (simp add: loop_head_with_def split: sum.splits prod.splits)

lemma loop_head_with_cycle:
  assumes "running s" and "interval_iterations h s = Inr n"
    and "fst (play_audio_with tr h s) = Inr b"
  shows "loop_head_with tr h t s = set_thread t (InWait n) (snd (play_audio_with tr h s))"
  using assms
  by (auto simp add: loop_head_with_alt interval_iterations_def split: sum.splits)

lemma loop_head_with_result:
  assumes "t < length (threads s)"
  shows "threads (loop_head_with tr h t s) ! t = Finished \<longrightarrow> \<not> running s"
    and "threads (loop_head_with tr h t s) ! t = Crashed e \<longrightarrow>
           running s \<and> (interval_iterations h s = Inl e \<or> fst (play_audio_with tr h s) = Inl e)"
  using assms
  by (auto simp add: loop_head_with_alt interval_iterations_def split: sum.splits if_splits)

lemma thread_step_with_fields [simp]:
  "running (thread_step_with tr h t s) = running s"
  "length (threads (thread_step_with tr h t s)) = length (threads s)"
  by (simp_all add: thread_step_with_def loop_head_with_alt
      split: tstate.splits nat.splits sum.splits)

lemma thread_step_with_other:
  assumes "t \<noteq> t'"
  shows "threads (thread_step_with tr h t' s) ! t = threads s ! t"
  using assms
  by (auto simp add: thread_step_with_def loop_head_with_alt
      split: tstate.splits nat.splits sum.splits)

lemma thread_step_with_ends:
  assumes "t < length (threads s)" and "is_live (threads s ! t)"
    and "\<not> is_live (threads (thread_step_with tr h t' s) ! t)"
  shows "t' = t \<and> threads s ! t = AtLoopHead
       \<and> thread_step_with tr h t' s = loop_head_with tr h t s"
proof (cases "t' = t")
  case False
  with assms show ?thesis by (simp add: thread_step_with_other)
next
  case True
  show ?thesis
  proof (cases "threads s ! t")
    case AtLoopHead
    with assms True show ?thesis by (simp add: thread_step_with_def)
  next
    case (InWait k)
    with assms True show ?thesis
      by (cases k) (auto simp add: thread_step_with_def split: if_splits)
  next
    case Finished
    with assms show ?thesis by simp
  next
    case (Crashed e)
    with assms show ?thesis by simp
  qed
qed

lemma wait_steps_with:
  assumes "t < length (threads s)" and "threads s ! t = InWait k" and "running s" and "j \<le> k"
  shows "run_threads_with tr h (replicate j t) s =
           s\<lparr>threads := (threads s)[t := InWait (k - j)],
             trace := trace s @ replicate j (Slept t)\<rparr>"
  using assms
proof (induction j arbitrary: s k)
  case 0
  have "(threads s)[t := InWait k] = threads s"
    using 0 by (metis list_update_id)
  then show ?case by simp
next
  case (Suc j)
  then obtain k' where k: "k = Suc k'" by (cases k) auto
  let ?s1 = "set_thread t (InWait k') (s\<lparr>trace := trace s @ [Slept t]\<rparr>)"
  have step: "thread_step_with tr h t s = ?s1"
    using Suc.prems k by (simp add: thread_step_with_def)
  have "run_threads_with tr h (replicate j t) ?s1 =
          ?s1\<lparr>threads := (threads ?s1)[t := InWait (k' - j)],
               trace := trace ?s1 @ replicate j (Slept t)\<rparr>"
    using Suc.prems k by (intro Suc.IH) simp_all
  then show ?case
    using k step by (simp add: set_thread_def replicate_app_Cons_same)
qed

lemma run_threads_with_append:
  "run_threads_with tr h (xs @ ys) s = run_threads_with tr h ys (run_threads_with tr h xs s)"
  by (induction xs arbitrary: s) simp_all

text \<open>
  C8, as the code has it. \<^verbatim>\<open>play_audio\<close> returns \<open>False\<close> when the path cannot be
  formed, when the file is missing and when the audio stack raises, whatever it raises,
  as long as no icon is attached or \<^verbatim>\<open>notify\<close> returns; it raises only what the
  \<^verbatim>\<open>notify\<close> of its outer handler raises. A cycle that starts with the flag set and a
  usable interval, and whose \<^verbatim>\<open>play_audio\<close> returns, ends in the wait, whatever was
  returned, and after the wait the thread is back at the head of the loop. A live thread
  ends only at the head of the loop, and only in three ways: it returns because the flag
  is cleared, or it is ended by an exception of the interval arithmetic, or by an
  exception that left \<^verbatim>\<open>play_audio\<close>.
\<close>

theorem timer_thread_ends_three_ways:
  assumes "t < length (threads s)"
  shows "(icon s = None \<or> (\<forall>a b. tr a b = None) \<longrightarrow>
            (get_audio_path h s = Inl e \<longrightarrow> fst (play_audio_with tr h s) = Inr False)
          \<and> (get_audio_path h s = Inr p \<and> fs s p = None \<longrightarrow>
               fst (play_audio_with tr h s) = Inr False)
          \<and> (get_audio_path h s = Inr p \<and> fs s p \<noteq> None \<and> audio_stack h p = Some e \<longrightarrow>
               fst (play_audio_with tr h s) = Inr False))
       \<and> (fst (play_audio_with tr h s) = Inl e \<longrightarrow>
            icon s \<noteq> None \<and> (\<exists>x. tr ''Error'' [ExcStr x] = Some e))
       \<and> (threads s ! t = AtLoopHead \<and> running s \<and> interval_iterations h s = Inr n
            \<and> fst (play_audio_with tr h s) = Inr b \<longrightarrow>
            thread_step_with tr h t s = set_thread t (InWait n) (snd (play_audio_with tr h s))
          \<and> running (thread_step_with tr h t s)
          \<and> threads (run_threads_with tr h (replicate (Suc n) t) (thread_step_with tr h t s)) ! t
              = AtLoopHead)
       \<and> (is_live (threads s ! t) \<and> threads (thread_step_with tr h t' s) ! t = Finished \<longrightarrow>
            \<not> running s)
       \<and> (is_live (threads s ! t) \<and> threads (thread_step_with tr h t' s) ! t = Crashed e \<longrightarrow>
            running s
          \<and> (interval_iterations h s = Inl e \<or> fst (play_audio_with tr h s) = Inl e))"
proof -
  have cycle: "thread_step_with tr h t s = set_thread t (InWait n) (snd (play_audio_with tr h s))
      \<and> running (thread_step_with tr h t s)
      \<and> threads (run_threads_with tr h (replicate (Suc n) t) (thread_step_with tr h t s)) ! t
          = AtLoopHead"
    if at: "threads s ! t = AtLoopHead" and run: "running s"
      and it: "interval_iterations h s = Inr n"
      and ok: "fst (play_audio_with tr h s) = Inr b"
  proof -
    let ?s1 = "thread_step_with tr h t s"
    have s1: "?s1 = set_thread t (InWait n) (snd (play_audio_with tr h s))"
      using assms at by (simp add: thread_step_with_def loop_head_with_cycle [OF run it ok])
    have len: "t < length (threads ?s1)" using assms by simp
    have w: "threads ?s1 ! t = InWait n" using assms by (simp add: s1)
    have r: "running ?s1" using run by simp
    let ?s2 = "run_threads_with tr h (replicate n t) ?s1"
    have s2: "?s2 = ?s1\<lparr>threads := (threads ?s1)[t := InWait (n - n)],
                         trace := trace ?s1 @ replicate n (Slept t)\<rparr>"
      using len w r by (rule wait_steps_with) simp
    have "run_threads_with tr h (replicate (Suc n) t) ?s1 = thread_step_with tr h t ?s2"
      using run_threads_with_append [of tr h "replicate n t" "[t]" ?s1]
      by (simp add: replicate_append_same)
    moreover have "threads (thread_step_with tr h t ?s2) ! t = AtLoopHead"
      using len by (subst s2) (simp add: thread_step_with_def)
    ultimately show ?thesis using s1 r by simp
  qed
  have fin: "\<not> running s"
    if "is_live (threads s ! t)" "threads (thread_step_with tr h t' s) ! t = Finished"
    using thread_step_with_ends [OF assms that(1), of tr h t'] that(2)
      loop_head_with_result(1) [OF assms, of tr h]
    by auto
  have crash: "running s
      \<and> (interval_iterations h s = Inl e \<or> fst (play_audio_with tr h s) = Inl e)"
    if "is_live (threads s ! t)" "threads (thread_step_with tr h t' s) ! t = Crashed e"
    using thread_step_with_ends [OF assms that(1), of tr h t'] that(2)
      loop_head_with_result(2) [OF assms, of tr h e]
    by auto
  have raises: "icon s \<noteq> None \<and> (\<exists>x. tr ''Error'' [ExcStr x] = Some e)"
    if "fst (play_audio_with tr h s) = Inl e"
    using that by (rule play_audio_with_raises)
  show ?thesis
    using play_audio_with_error_outcomes [of s tr h e p] cycle fin crash raises by blast
qed


theorem timer_thread_ends_three_ways_witness:
  "fst (play_audio_with quiet_tray demo_host running_player) = Inr False
   \<and> threads (thread_step_with quiet_tray demo_host 0 running_player) = [InWait 600]
   \<and> fst (play_audio_with quiet_tray demo_host bad_tone_player) = Inr False
   \<and> threads (thread_step_with quiet_tray demo_host 0 bad_tone_player) = [InWait 180]
   \<and> threads (thread_step_with quiet_tray demo_host 0 stopping_player) = [Finished]
   \<and> \<not> running stopping_player
   \<and> threads (thread_step_with quiet_tray demo_host 0 null_interval_player) = [Crashed TypeError]
   \<and> interval_iterations demo_host null_interval_player = Inl TypeError
   \<and> threads (thread_step_with broken_tray demo_host 0 tray_running_player) = [Crashed OSError]
   \<and> fst (play_audio_with broken_tray demo_host tray_running_player) = Inl OSError"
proof -
  have q: "\<forall>a b. quiet_tray a b = None" by (simp add: quiet_tray_def)
  have a: "get_audio_path demo_host running_player = Inr ''./tone.wav''"
    "fs running_player ''./tone.wav'' = None"
    "interval_iterations demo_host running_player = Inr 600"
    by (simp_all add: get_audio_path_def interval_iterations_def default_settings_def
        demo_host_def get_base_path_def running_player_def fresh_player_def empty_world_def)
  have b: "get_audio_path demo_host bad_tone_player = Inr ''./bad.wav''"
    "fs bad_tone_player ''./bad.wav'' \<noteq> None"
    "audio_stack demo_host ''./bad.wav'' = Some RuntimeError"
    "interval_iterations demo_host bad_tone_player = Inr 180"
    "threads bad_tone_player = [AtLoopHead]" "running bad_tone_player"
    by (simp_all add: get_audio_path_def interval_iterations_def bad_tone_player_def
        demo_host_def demo_audio_stack_def get_base_path_def)
  have c: "threads stopping_player = [AtLoopHead]" "\<not> running stopping_player"
    "threads (thread_step_with quiet_tray demo_host 0 stopping_player) = [Finished]"
    by (simp_all add: stopping_player_def thread_step_with_def loop_head_with_def)
  have d: "threads null_interval_player = [AtLoopHead]" "running null_interval_player"
    "threads (thread_step_with quiet_tray demo_host 0 null_interval_player) = [Crashed TypeError]"
    by (simp_all add: null_interval_player_def thread_step_with_def loop_head_with_def)
  have e: "threads tray_running_player = [AtLoopHead]" "running tray_running_player"
    "interval_iterations demo_host tray_running_player = Inr 600"
    by (simp_all add: tray_running_player_def interval_iterations_def default_settings_def)
  have f: "threads (thread_step_with broken_tray demo_host 0 tray_running_player) = [Crashed OSError]"
    by (simp add: thread_step_with_def loop_head_with_def play_audio_with_def
        play_audio_failed_with_def notify_with_def log_def broken_tray_def e(1,2)
        tray_running_player_def running_player_def fresh_player_def empty_world_def
        default_settings_def get_audio_path_def get_base_path_def demo_host_def set_thread_def)
  have r1: "fst (play_audio_with quiet_tray demo_host running_player) = Inr False"
    using timer_thread_ends_three_ways [where t = 0 and s = running_player and h = demo_host
        and tr = quiet_tray and p = "''./tone.wav''"] a q
    by simp
  have "threads (thread_step_with quiet_tray demo_host 0 running_player) = [InWait 600]"
    using timer_thread_ends_three_ways [where t = 0 and s = running_player and h = demo_host
        and tr = quiet_tray and n = 600 and b = False] a r1
    by simp
  moreover have r2: "fst (play_audio_with quiet_tray demo_host bad_tone_player) = Inr False"
    using timer_thread_ends_three_ways [where t = 0 and s = bad_tone_player and h = demo_host
        and tr = quiet_tray and p = "''./bad.wav''" and e = RuntimeError] b q
    by simp
  moreover have "threads (thread_step_with quiet_tray demo_host 0 bad_tone_player) = [InWait 180]"
    using timer_thread_ends_three_ways [where t = 0 and s = bad_tone_player and h = demo_host
        and tr = quiet_tray and n = 180 and b = False] b r2
    by simp
  moreover have "interval_iterations demo_host null_interval_player = Inl TypeError"
    by (simp add: interval_iterations_def null_interval_player_def)
  moreover have "fst (play_audio_with broken_tray demo_host tray_running_player) = Inl OSError"
    using timer_thread_ends_three_ways [where t = 0 and t' = 0 and s = tray_running_player
        and h = demo_host and tr = broken_tray and e = OSError] e f
    by simp
  ultimately show ?thesis using r1 c d f by simp
qed

text \<open>
  C8 as the spec states it fails: a cleared flag is not the only end of the loop, and
  an error of the playback attempt can end it. With \<^verbatim>\<open>null\<close> for
  \<^verbatim>\<open>interval_minutes\<close> the multiplication raises before anything is played; with the
  word \<^verbatim>\<open>"ten"\<close> the tone is attempted and \<^verbatim>\<open>int()\<close> raises after it; with the
  audio file missing and a tray whose \<^verbatim>\<open>notify\<close> raises, \<^verbatim>\<open>play_audio\<close> raises. Each
  time the thread has ended after its first step while the flag is still set.
\<close>

theorem loop_ends_without_stop_counterexample:
  "running null_interval_player
   \<and> threads null_interval_player = [AtLoopHead]
   \<and> threads (thread_step_with quiet_tray demo_host 0 null_interval_player) = [Crashed TypeError]
   \<and> running (thread_step_with quiet_tray demo_host 0 null_interval_player)
   \<and> running word_interval_player
   \<and> threads word_interval_player = [AtLoopHead]
   \<and> threads (thread_step_with quiet_tray demo_host 0 word_interval_player) = [Crashed ValueError]
   \<and> running (thread_step_with quiet_tray demo_host 0 word_interval_player)
   \<and> running tray_running_player
   \<and> threads tray_running_player = [AtLoopHead]
   \<and> fs tray_running_player ''./tone.wav'' = None
   \<and> threads (thread_step_with broken_tray demo_host 0 tray_running_player) = [Crashed OSError]
   \<and> running (thread_step_with broken_tray demo_host 0 tray_running_player)"
  by (simp add: null_interval_player_def word_interval_player_def tray_running_player_def
      thread_step_with_def loop_head_with_def play_audio_with_def play_audio_failed_with_def
      notify_with_def get_audio_path_def get_base_path_def log_def quiet_tray_def broken_tray_def
      demo_host_def running_player_def fresh_player_def empty_world_def default_settings_def
      set_thread_def)

subsection \<open>Changing the interval while a tone is playing\<close>



end
